theory Spec2Isabelle
  imports Complex_Main "HOL-Library.Word" "HOL-Library.AList"
begin

section \<open>JavaScript strings\<close>

text \<open>
  A JavaScript string is a sequence of UTF-16 code units. ASCII literals of the source are
  written \<open>ascii ''...''\<close>; other literals are written as lists of code units.
\<close>

type_synonym code_unit = "16 word"
type_synonym jsstring = "code_unit list"

definition ascii :: "string \<Rightarrow> jsstring" where
  "ascii s = map of_char s"

text \<open>
  The code units matched by \<open>\s\<close> in a regular expression and stripped by
  \<open>String.prototype.trim\<close> (WhiteSpace and LineTerminator of ECMAScript).
\<close>

definition isWhiteSpace :: "code_unit \<Rightarrow> bool" where
  "isWhiteSpace c \<longleftrightarrow>
     c = 0x09 \<or> c = 0x0A \<or> c = 0x0B \<or> c = 0x0C \<or> c = 0x0D \<or> c = 0x20 \<or> c = 0xA0
     \<or> c = 0x1680 \<or> (0x2000 \<le> c \<and> c \<le> 0x200A) \<or> c = 0x2028 \<or> c = 0x2029
     \<or> c = 0x202F \<or> c = 0x205F \<or> c = 0x3000 \<or> c = 0xFEFF"

definition trim :: "jsstring \<Rightarrow> jsstring" where
  "trim s = rev (dropWhile isWhiteSpace (rev (dropWhile isWhiteSpace s)))"

text \<open>
  \<open>String.prototype.toLowerCase\<close> on the Basic Latin letters: \<open>A\<close>..\<open>Z\<close> go to
  \<open>a\<close>..\<open>z\<close>; every other code unit is kept (the case mappings of the other Unicode
  blocks are not part of this model).
\<close>

definition toLowerUnit :: "code_unit \<Rightarrow> code_unit" where
  "toLowerUnit c = (if 0x41 \<le> c \<and> c \<le> 0x5A then c + 0x20 else c)"

definition toLowerCase :: "jsstring \<Rightarrow> jsstring" where
  "toLowerCase s = map toLowerUnit s"

text \<open>\<open>s.replace(/\s+/g, '_')\<close>: every maximal run of white space becomes one underscore.\<close>

function replaceWhiteSpace :: "jsstring \<Rightarrow> jsstring" where
  "replaceWhiteSpace [] = []"
| "replaceWhiteSpace (c # cs) =
     (if isWhiteSpace c then 0x5F # replaceWhiteSpace (dropWhile isWhiteSpace cs)
      else c # replaceWhiteSpace cs)"
  by pat_completeness auto
termination
  by (relation "measure length") (auto simp: length_dropWhile_le less_Suc_eq_le)

text \<open>\<open>x || d\<close> for an optional string (\<open>undefined\<close> and \<open>''\<close> are falsy) and an optional
  number (\<open>undefined\<close> and \<open>0\<close> are falsy).\<close>

definition strOr :: "jsstring option \<Rightarrow> jsstring \<Rightarrow> jsstring" where
  "strOr x d = (case x of None \<Rightarrow> d | Some s \<Rightarrow> if s = [] then d else s)"

definition numOr :: "int option \<Rightarrow> int \<Rightarrow> int" where
  "numOr x d = (case x of None \<Rightarrow> d | Some n \<Rightarrow> if n = 0 then d else n)"

section \<open>Types of the AI translation plugin (types/translation.ts)\<close>

record TranslationRequest =
  req_text :: jsstring
  req_from :: jsstring
  req_to :: jsstring
  req_context :: "jsstring option"

record TranslationResponse =
  translatedText :: jsstring
  sourceLanguage :: jsstring
  targetLanguage :: jsstring

text \<open>One entry of \<open>TranslationCache\<close>.\<close>

record CacheEntry =
  cachedText :: jsstring
  timestamp :: int
  expiresAt :: int

text \<open>
  \<open>TranslationCache\<close> is a plain object with string keys, none of them an array index:
  its entries are enumerated in insertion order, assigning to a present key keeps the
  key's place (\<open>AList.update\<close>), \<open>delete\<close> removes it (\<open>AList.delete\<close>).
\<close>

type_synonym TranslationCache = "(jsstring \<times> CacheEntry) list"

record AITranslationConfig =
  provider :: "jsstring option"
  apiKey :: jsstring
  model :: "jsstring option"
  endpoint :: "jsstring option"
  maxRetries :: "int option"
  timeout :: "int option"
  cacheExpiration :: "int option"

text \<open>
  \<open>Partial<AITranslationConfig>\<close>, also what \<open>JSON.parse\<close> yields for a stored configuration:
  each property is absent (\<open>None\<close>) or present with a value. A present \<open>provider\<close> that is no
  string (\<open>null\<close>, say) is \<open>Some None\<close>.
\<close>

record PartialAITranslationConfig =
  p_provider :: "jsstring option option"
  p_apiKey :: "jsstring option"
  p_model :: "jsstring option option"
  p_endpoint :: "jsstring option option"
  p_maxRetries :: "int option option"
  p_timeout :: "int option option"
  p_cacheExpiration :: "int option option"

section \<open>The environment: clock, random numbers, storage quota, network\<close>

text \<open>
  What each provider variant sends: the endpoint it calls and the values its payload and
  headers are built from (API key, model or endpoint override, timeout, the request).
\<close>

datatype http_request =
    OpenAIRequest jsstring jsstring int TranslationRequest
  | ClaudeRequest jsstring jsstring int TranslationRequest
  | GoogleRequest jsstring int TranslationRequest
  | DeepLRequest jsstring jsstring int TranslationRequest

text \<open>
  The parsed body of a provider response as the variants read it: \<open>InvalidBody\<close> when
  \<open>response.json()\<close> rejects or the body is not an object, otherwise the string found at the
  variant's result path (\<open>choices[0].message.content\<close>, \<open>content[0].text\<close>,
  \<open>data.translations[0].translatedText\<close>, \<open>translations[0].text\<close>), if there is one.
\<close>

datatype response_body = InvalidBody | Parsed "jsstring option"

record http_response =
  ok :: bool
  status :: nat
  statusText :: jsstring
  body :: response_body

text \<open>\<open>fetch\<close> rejects (network failure, or the timeout signal aborts it) or resolves.\<close>

datatype fetch_result = Rejected | Responded http_response

text \<open>
  The environment answers the effects of the code: the \<open>n\<close>-th call of \<open>Date.now()\<close>, of
  \<open>Math.random()\<close>, of \<open>localStorage.setItem\<close> (does it throw?) and of \<open>fetch\<close>, and the
  object stored under \<open>ai-translation-config\<close> (\<open>None\<close> when the item is missing or empty,
  does not parse, or parses to something that is no object).
\<close>

record env =
  dateNow :: "nat \<Rightarrow> int"
  mathRandom :: "nat \<Rightarrow> rat"
  setItemThrows :: "nat \<Rightarrow> bool"
  fetch :: "nat \<Rightarrow> http_request \<Rightarrow> fetch_result"
  storedConfig :: "PartialAITranslationConfig option"

text \<open>
  The state: the in-memory cache of the \<open>translationCache\<close> singleton, the value persisted
  under \<open>ai-translation-cache\<close>, how many times each effect has been used, and the network
  requests issued so far.
\<close>

record world =
  cache :: TranslationCache
  persisted :: "TranslationCache option"
  nowCalls :: nat
  randomCalls :: nat
  setItemCalls :: nat
  requests :: "http_request list"

section \<open>Configuration (services/config.ts)\<close>

definition DEFAULT_AI_CONFIG :: AITranslationConfig where
  "DEFAULT_AI_CONFIG =
     \<lparr>provider = Some (ascii ''openai''), apiKey = [], model = Some (ascii ''gpt-3.5-turbo''),
      endpoint = None, maxRetries = Some 3, timeout = Some 10000,
      cacheExpiration = Some (24 * 60 * 60 * 1000)\<rparr>"

text \<open>The object spread \<open>{ ...base, ...over }\<close>: a property present in \<open>over\<close> wins.\<close>

definition spread :: "AITranslationConfig \<Rightarrow> PartialAITranslationConfig \<Rightarrow> AITranslationConfig" where
  "spread base over =
     \<lparr>provider = (case p_provider over of None \<Rightarrow> provider base | Some v \<Rightarrow> v),
      apiKey = (case p_apiKey over of None \<Rightarrow> apiKey base | Some v \<Rightarrow> v),
      model = (case p_model over of None \<Rightarrow> model base | Some v \<Rightarrow> v),
      endpoint = (case p_endpoint over of None \<Rightarrow> endpoint base | Some v \<Rightarrow> v),
      maxRetries = (case p_maxRetries over of None \<Rightarrow> maxRetries base | Some v \<Rightarrow> v),
      timeout = (case p_timeout over of None \<Rightarrow> timeout base | Some v \<Rightarrow> v),
      cacheExpiration = (case p_cacheExpiration over of None \<Rightarrow> cacheExpiration base | Some v \<Rightarrow> v)\<rparr>"

definition getAIConfig :: "env \<Rightarrow> AITranslationConfig" where
  "getAIConfig E =
     (case storedConfig E of
        Some stored \<Rightarrow> spread DEFAULT_AI_CONFIG stored
      | None \<Rightarrow> DEFAULT_AI_CONFIG)"

section \<open>TranslationCacheManager (services/translationCache.ts)\<close>

definition MAX_CACHE_SIZE :: nat where
  "MAX_CACHE_SIZE = 1000"

definition generateCacheKey :: "TranslationRequest \<Rightarrow> jsstring" where
  "generateCacheKey request =
     replaceWhiteSpace (req_from request @ ascii ''-'' @ req_to request @ ascii ''-''
        @ trim (toLowerCase (req_text request)) @ ascii ''-'' @ strOr (req_context request) [])"

definition cleanupExpiredEntries :: "env \<Rightarrow> world \<Rightarrow> world" where
  "cleanupExpiredEntries E w =
     (let now = dateNow E (nowCalls w) in
      w\<lparr>cache := filter (\<lambda>(key, e). \<not> expiresAt e < now) (cache w),
        nowCalls := Suc (nowCalls w)\<rparr>)"

text \<open>\<open>Array.prototype.sort\<close> is stable, and so is \<open>sort_key\<close>.\<close>

definition cleanupOldEntries :: "world \<Rightarrow> world" where
  "cleanupOldEntries w =
     (let entries = cache w in
      if length entries > MAX_CACHE_SIZE then
        let sorted = sort_key (\<lambda>(key, e). timestamp e) entries;
            toDelete = take (length entries - MAX_CACHE_SIZE + 100) sorted
        in w\<lparr>cache := fold (\<lambda>(key, e) c. AList.delete key c) toDelete (cache w)\<rparr>
      else w)"

definition setItem :: "env \<Rightarrow> world \<Rightarrow> bool \<times> world" where
  "setItem E w =
     (if setItemThrows E (setItemCalls w) then (False, w\<lparr>setItemCalls := Suc (setItemCalls w)\<rparr>)
      else (True, w\<lparr>persisted := Some (cache w), setItemCalls := Suc (setItemCalls w)\<rparr>))"

definition saveCache :: "env \<Rightarrow> world \<Rightarrow> world" where
  "saveCache E w =
     (case setItem E w of
        (True, w1) \<Rightarrow> w1
      | (False, w1) \<Rightarrow> snd (setItem E (cleanupOldEntries w1)))"

definition cacheGet :: "env \<Rightarrow> TranslationRequest \<Rightarrow> world \<Rightarrow> TranslationResponse option \<times> world" where
  "cacheGet E request w =
     (let key = generateCacheKey request in
      case map_of (cache w) key of
        None \<Rightarrow> (None, w)
      | Some cached \<Rightarrow>
          (let now = dateNow E (nowCalls w); w1 = w\<lparr>nowCalls := Suc (nowCalls w)\<rparr> in
           if expiresAt cached < now
           then (None, saveCache E (w1\<lparr>cache := AList.delete key (cache w1)\<rparr>))
           else (Some \<lparr>translatedText = cachedText cached,
                       sourceLanguage = req_from request,
                       targetLanguage = req_to request\<rparr>, w1)))"

definition cacheSet :: "env \<Rightarrow> TranslationRequest \<Rightarrow> TranslationResponse \<Rightarrow> world \<Rightarrow> world" where
  "cacheSet E request response w =
     (let config = getAIConfig E;
          key = generateCacheKey request;
          now = dateNow E (nowCalls w);
          w1 = w\<lparr>nowCalls := Suc (nowCalls w)\<rparr>;
          w2 = w1\<lparr>cache := AList.update key
                   \<lparr>cachedText = translatedText response,
                    timestamp = now,
                    expiresAt = now + numOr (cacheExpiration config) (24 * 60 * 60 * 1000)\<rparr>
                   (cache w1)\<rparr>;
          r = mathRandom E (randomCalls w2);
          w3 = w2\<lparr>randomCalls := Suc (randomCalls w2)\<rparr>;
          w4 = (if r < 1 / 10 then cleanupExpiredEntries E w3 else w3)
      in saveCache E w4)"

definition cacheClear :: "env \<Rightarrow> world \<Rightarrow> world" where
  "cacheClear E w = saveCache E (w\<lparr>cache := []\<rparr>)"

definition cacheDelete :: "env \<Rightarrow> TranslationRequest \<Rightarrow> world \<Rightarrow> bool \<times> world" where
  "cacheDelete E request w =
     (let key = generateCacheKey request in
      case map_of (cache w) key of
        Some e \<Rightarrow> (True, saveCache E (w\<lparr>cache := AList.delete key (cache w)\<rparr>))
      | None \<Rightarrow> (False, w))"

section \<open>AITranslator (services/aiTranslator.ts)\<close>

datatype js_error =
    FetchRejected
  | InvalidJson
  | ApiError jsstring nat jsstring
  | NoTranslation jsstring
  | UnsupportedProvider "jsstring option"
  | TimeoutOutOfRange int
  | TranslationFailed js_error

text \<open>
  The constructor: \<open>this.config = { ...getAIConfig(), ...config }\<close>, and the argument of the
  default instance \<open>new AITranslator()\<close>.
\<close>

definition newAITranslator :: "env \<Rightarrow> PartialAITranslationConfig \<Rightarrow> AITranslationConfig" where
  "newAITranslator E config = spread (getAIConfig E) config"

definition noOverrides :: PartialAITranslationConfig where
  "noOverrides = \<lparr>p_provider = None, p_apiKey = None, p_model = None, p_endpoint = None,
                   p_maxRetries = None, p_timeout = None, p_cacheExpiration = None\<rparr>"

text \<open>
  \<open>AbortSignal.timeout(ms)\<close> takes an \<open>unsigned long long\<close> with range enforced: it throws a
  \<open>TypeError\<close> unless \<open>0 \<le> ms \<le> 2\<^sup>5\<^sup>3 - 1\<close>. The variants evaluate it among the arguments
  of \<open>fetch\<close>, so an out-of-range timeout fails the variant before \<open>fetch\<close> is called.
\<close>

definition timeoutInRange :: "int \<Rightarrow> bool" where
  "timeoutInRange ms \<longleftrightarrow> 0 \<le> ms \<and> ms \<le> 9007199254740991"

text \<open>
  The part the four variants share: issue the one network call, map a non-2xx response to
  an error with its status, read the translated string (trimmed by the chat variants) and
  refuse a missing or empty one.
\<close>

definition callProvider ::
  "jsstring \<Rightarrow> bool \<Rightarrow> http_request \<Rightarrow> env \<Rightarrow> TranslationRequest \<Rightarrow> world
     \<Rightarrow> (js_error + TranslationResponse) \<times> world" where
  "callProvider name trimmed rq E request w =
     (let answer = fetch E (length (requests w)) rq;
          w1 = w\<lparr>requests := requests w @ [rq]\<rparr>
      in case answer of
           Rejected \<Rightarrow> (Inl FetchRejected, w1)
         | Responded response \<Rightarrow>
             if \<not> ok response then (Inl (ApiError name (status response) (statusText response)), w1)
             else (case body response of
                     InvalidBody \<Rightarrow> (Inl InvalidJson, w1)
                   | Parsed None \<Rightarrow> (Inl (NoTranslation name), w1)
                   | Parsed (Some s) \<Rightarrow>
                       (let t = (if trimmed then trim s else s) in
                        if t = [] then (Inl (NoTranslation name), w1)
                        else (Inr \<lparr>translatedText = t,
                                  sourceLanguage = req_from request,
                                  targetLanguage = req_to request\<rparr>, w1))))"

definition translateWithOpenAI ::
  "env \<Rightarrow> AITranslationConfig \<Rightarrow> TranslationRequest \<Rightarrow> world
     \<Rightarrow> (js_error + TranslationResponse) \<times> world" where
  "translateWithOpenAI E config request w =
     (let ms = numOr (timeout config) 10000 in
      if timeoutInRange ms
      then callProvider (ascii ''OpenAI'') True
             (OpenAIRequest (apiKey config) (strOr (model config) (ascii ''gpt-3.5-turbo'')) ms request)
             E request w
      else (Inl (TimeoutOutOfRange ms), w))"

definition translateWithClaude ::
  "env \<Rightarrow> AITranslationConfig \<Rightarrow> TranslationRequest \<Rightarrow> world
     \<Rightarrow> (js_error + TranslationResponse) \<times> world" where
  "translateWithClaude E config request w =
     (let ms = numOr (timeout config) 10000 in
      if timeoutInRange ms
      then callProvider (ascii ''Claude'') True
             (ClaudeRequest (apiKey config) (strOr (model config) (ascii ''claude-3-haiku-20240307''))
                ms request)
             E request w
      else (Inl (TimeoutOutOfRange ms), w))"

definition translateWithGoogle ::
  "env \<Rightarrow> AITranslationConfig \<Rightarrow> TranslationRequest \<Rightarrow> world
     \<Rightarrow> (js_error + TranslationResponse) \<times> world" where
  "translateWithGoogle E config request w =
     (let ms = numOr (timeout config) 10000 in
      if timeoutInRange ms
      then callProvider (ascii ''Google Translate'') False
             (GoogleRequest (apiKey config) ms request) E request w
      else (Inl (TimeoutOutOfRange ms), w))"

definition translateWithDeepL ::
  "env \<Rightarrow> AITranslationConfig \<Rightarrow> TranslationRequest \<Rightarrow> world
     \<Rightarrow> (js_error + TranslationResponse) \<times> world" where
  "translateWithDeepL E config request w =
     (let ms = numOr (timeout config) 10000 in
      if timeoutInRange ms
      then callProvider (ascii ''DeepL'') False
             (DeepLRequest (strOr (endpoint config) (ascii ''https://api-free.deepl.com/v2/translate''))
                (apiKey config) ms request)
             E request w
      else (Inl (TimeoutOutOfRange ms), w))"

definition performTranslation ::
  "env \<Rightarrow> AITranslationConfig \<Rightarrow> TranslationRequest \<Rightarrow> world
     \<Rightarrow> (js_error + TranslationResponse) \<times> world" where
  "performTranslation E config request w =
     (if provider config = Some (ascii ''openai'') then translateWithOpenAI E config request w
      else if provider config = Some (ascii ''claude'') then translateWithClaude E config request w
      else if provider config = Some (ascii ''google'') then translateWithGoogle E config request w
      else if provider config = Some (ascii ''deepl'') then translateWithDeepL E config request w
      else (Inl (UnsupportedProvider (provider config)), w))"

definition translate ::
  "env \<Rightarrow> AITranslationConfig \<Rightarrow> TranslationRequest \<Rightarrow> world
     \<Rightarrow> (js_error + TranslationResponse) \<times> world" where
  "translate E config request w =
     (case cacheGet E request w of
        (Some cached, w1) \<Rightarrow> (Inr cached, w1)
      | (None, w1) \<Rightarrow>
          (case performTranslation E config request w1 of
             (Inr response, w2) \<Rightarrow> (Inr response, cacheSet E request response w2)
           | (Inl error, w2) \<Rightarrow> (Inl (TranslationFailed error), w2)))"

fun translateBatch ::
  "env \<Rightarrow> AITranslationConfig \<Rightarrow> TranslationRequest list \<Rightarrow> world
     \<Rightarrow> TranslationResponse list \<times> world" where
  "translateBatch E config [] w = ([], w)"
| "translateBatch E config (request # rest) w =
     (let (outcome, w1) = translate E config request w;
          result = (case outcome of
                      Inr r \<Rightarrow> r
                    | Inl error \<Rightarrow> \<lparr>translatedText = req_text request,
                                    sourceLanguage = req_from request,
                                    targetLanguage = req_to request\<rparr>);
          (results, w2) = translateBatch E config rest w1
      in (result # results, w2))"

section \<open>AITranslationGenerator (services/aiTranslationGenerator.ts)\<close>

text \<open>An item \<open>{ key, text }\<close> of a batch.\<close>

record batch_item =
  item_key :: jsstring
  item_text :: jsstring

text \<open>
  The tables of this class are object literals, which inherit the members of
  \<open>Object.prototype\<close>: the lookup \<open>table[name]\<close> finds the table's own property, or for one of
  the names below the inherited member (a function, or for \<open>__proto__\<close> the prototype itself:
  truthy, and no string), or nothing.
\<close>

definition objectPrototypeNames :: "jsstring list" where
  "objectPrototypeNames =
     [ascii ''constructor'', ascii ''hasOwnProperty'', ascii ''isPrototypeOf'',
      ascii ''propertyIsEnumerable'', ascii ''toLocaleString'', ascii ''toString'', ascii ''valueOf'',
      ascii ''__proto__'', ascii ''__defineGetter__'', ascii ''__defineSetter__'',
      ascii ''__lookupGetter__'', ascii ''__lookupSetter__'']"

datatype 'a property = Own 'a | Inherited jsstring | Undefined

definition getProperty :: "(jsstring \<times> 'a) list \<Rightarrow> jsstring \<Rightarrow> 'a property" where
  "getProperty table name =
     (case map_of table name of
        Some v \<Rightarrow> Own v
      | None \<Rightarrow> if name \<in> set objectPrototypeNames then Inherited name else Undefined)"

text \<open>
  An item \<open>{ key, translated }\<close> of the result; the translated value is a string, or the
  member of \<open>Object.prototype\<close> of the given name.
\<close>

datatype js_value = Str jsstring | Member jsstring

record translated_item =
  result_key :: jsstring
  translated :: js_value

text \<open>The body of the one request to \<open>/translate/batch\<close>.\<close>

record batch_request =
  url :: jsstring
  texts :: "jsstring list"
  source_language :: jsstring
  target_language :: jsstring
  request_context :: jsstring

text \<open>
  What the code reads of the reply: an element of \<open>data.translations\<close> is \<open>null\<close> or an object
  whose \<open>translated\<close> may be missing; \<open>data.translations\<close> may be missing or no array
  (\<open>ReplyData None\<close>); the body may fail to parse or be \<open>null\<close> (\<open>ReplyInvalid\<close>).
\<close>

datatype reply_item = NullItem | Item "jsstring option"

datatype reply_body = ReplyInvalid | ReplyData "reply_item list option"

record batch_response =
  reply_ok :: bool
  reply_status :: nat
  reply_statusText :: jsstring
  reply_body :: reply_body

datatype batch_fetch_result = BatchRejected | BatchResponded batch_response

datatype batch_error = FetchFailed | BatchFailed jsstring nat | TypeError

text \<open>
  The table \<open>patterns\<close> of \<open>isAlreadyTranslated\<close>: one character class per language code,
  tested on the code units of the text.
\<close>

definition patterns :: "(jsstring \<times> (code_unit \<Rightarrow> bool)) list" where
  "patterns =
     [(ascii ''zh'', \<lambda>c. 0x4E00 \<le> c \<and> c \<le> 0x9FFF),
      (ascii ''ja'', \<lambda>c. (0x3040 \<le> c \<and> c \<le> 0x309F) \<or> (0x30A0 \<le> c \<and> c \<le> 0x30FF)),
      (ascii ''ko'', \<lambda>c. 0xAC00 \<le> c \<and> c \<le> 0xD7AF),
      (ascii ''ru'', \<lambda>c. 0x0400 \<le> c \<and> c \<le> 0x04FF),
      (ascii ''ar'', \<lambda>c. 0x0600 \<le> c \<and> c \<le> 0x06FF),
      (ascii ''th'', \<lambda>c. 0x0E00 \<le> c \<and> c \<le> 0x0E7F)]"

text \<open>
  \<open>pattern ? pattern.test(text) : false\<close>: an inherited member is truthy and has no method
  \<open>test\<close>, so the call throws a \<open>TypeError\<close> (\<open>None\<close>).
\<close>

definition isAlreadyTranslated :: "jsstring \<Rightarrow> jsstring \<Rightarrow> bool option" where
  "isAlreadyTranslated str lang =
     (case getProperty patterns lang of
        Own pattern \<Rightarrow> Some (list_ex pattern str)
      | Inherited name \<Rightarrow> None
      | Undefined \<Rightarrow> Some False)"

definition fallbackCore :: "(jsstring \<times> jsstring) list" where
  "fallbackCore =
     [(ascii ''common.welcome'', ascii ''Welcome''),
      (ascii ''common.login'', ascii ''Log In''),
      (ascii ''common.logout'', ascii ''Logout''),
      (ascii ''common.save'', ascii ''Save''),
      (ascii ''common.delete'', ascii ''Delete''),
      (ascii ''common.edit'', ascii ''Edit''),
      (ascii ''nav.home'', ascii ''Home''),
      (ascii ''nav.settings'', ascii ''Settings''),
      (ascii ''sidebar.dashboard'', ascii ''Dashboard''),
      (ascii ''sidebar.items'', ascii ''Items''),
      (ascii ''sidebar.userSettings'', ascii ''User Settings''),
      (ascii ''settings.title'', ascii ''User Settings''),
      (ascii ''auth.loginTitle'', ascii ''Sign in to your account''),
      (ascii ''auth.email'', ascii ''Email''),
      (ascii ''auth.password'', ascii ''Password'')]"

text \<open>\<open>fallbackCore[item.key] || item.text\<close>.\<close>

definition getFallbackTranslations :: "batch_item list \<Rightarrow> translated_item list" where
  "getFallbackTranslations items =
     map (\<lambda>item. \<lparr>result_key = item_key item,
                   translated = (case getProperty fallbackCore (item_key item) of
                                   Own s \<Rightarrow> if s = [] then Str (item_text item) else Str s
                                 | Inherited name \<Rightarrow> Member name
                                 | Undefined \<Rightarrow> Str (item_text item))\<rparr>) items"

text \<open>
  The loop \<open>data.translations.forEach((item, index) => translationMap.set(toTranslate[index].text,
  item.translated))\<close>; it throws when the reply has more elements than were sent or an
  element is \<open>null\<close>.
\<close>

fun fillTranslationMap ::
  "batch_item list \<Rightarrow> reply_item list \<Rightarrow> nat \<Rightarrow> (jsstring \<rightharpoonup> jsstring option)
     \<Rightarrow> (jsstring \<rightharpoonup> jsstring option) option" where
  "fillTranslationMap toTranslate [] index translationMap = Some translationMap"
| "fillTranslationMap toTranslate (r # rs) index translationMap =
     (if index < length toTranslate then
        (case r of
           NullItem \<Rightarrow> None
         | Item t \<Rightarrow> fillTranslationMap toTranslate rs (Suc index)
                      (translationMap(item_text (toTranslate ! index) \<mapsto> t)))
      else None)"

text \<open>
  \<open>items.filter(item => !this.isAlreadyTranslated(item.text, targetLanguage))\<close>, which throws
  when a call of the predicate does.
\<close>

fun filterUntranslated :: "jsstring \<Rightarrow> batch_item list \<Rightarrow> batch_item list option" where
  "filterUntranslated lang [] = Some []"
| "filterUntranslated lang (item # rest) =
     (case isAlreadyTranslated (item_text item) lang of
        None \<Rightarrow> None
      | Some already \<Rightarrow>
          (case filterUntranslated lang rest of
             None \<Rightarrow> None
           | Some kept \<Rightarrow> Some (if already then kept else item # kept)))"

text \<open>The \<open>try\<close> block of \<open>translateBatchOptimized\<close>, with the requests it issued.\<close>

definition tryBatch ::
  "jsstring \<Rightarrow> (batch_request \<Rightarrow> batch_fetch_result) \<Rightarrow> jsstring \<Rightarrow> batch_item list
     \<Rightarrow> (batch_error + translated_item list) \<times> batch_request list" where
  "tryBatch baseUrl fetchBatch lang items =
     (case filterUntranslated lang items of
        None \<Rightarrow> (Inl TypeError, [])
      | Some toTranslate \<Rightarrow>
          if length toTranslate = 0
          then (Inr (map (\<lambda>item. \<lparr>result_key = item_key item, translated = Str (item_text item)\<rparr>) items), [])
          else
            (let rq = \<lparr>url = baseUrl @ ascii ''/translate/batch'',
                       texts = map item_text toTranslate,
                       source_language = ascii ''auto'',
                       target_language = lang,
                       request_context = ascii ''web interface UI text translation''\<rparr>
             in case fetchBatch rq of
                  BatchRejected \<Rightarrow> (Inl FetchFailed, [rq])
                | BatchResponded response \<Rightarrow>
                    if \<not> reply_ok response
                    then (Inl (BatchFailed (reply_statusText response) (reply_status response)), [rq])
                    else (case reply_body response of
                            ReplyInvalid \<Rightarrow> (Inl TypeError, [rq])
                          | ReplyData None \<Rightarrow> (Inl TypeError, [rq])
                          | ReplyData (Some translations) \<Rightarrow>
                              (case fillTranslationMap toTranslate translations 0 Map.empty of
                                 None \<Rightarrow> (Inl TypeError, [rq])
                               | Some translationMap \<Rightarrow>
                                   (Inr (map (\<lambda>item.
                                           \<lparr>result_key = item_key item,
                                            translated =
                                              Str (strOr (case translationMap (item_text item) of
                                                            None \<Rightarrow> None | Some t \<Rightarrow> t)
                                                     (item_text item))\<rparr>) items), [rq])))))"

definition translateBatchOptimized ::
  "jsstring \<Rightarrow> (batch_request \<Rightarrow> batch_fetch_result) \<Rightarrow> jsstring \<Rightarrow> batch_item list
     \<Rightarrow> translated_item list \<times> batch_request list" where
  "translateBatchOptimized baseUrl fetchBatch lang items =
     (case tryBatch baseUrl fetchBatch lang items of
        (Inr result, issued) \<Rightarrow> (result, issued)
      | (Inl error, issued) \<Rightarrow> (getFallbackTranslations items, issued))"

section \<open>The document\<close>

text \<open>
  Elements are objects the code holds references to and mutates in place, so they live in
  a store: a reference is an index of the store, and a child is a text node or a reference
  to an element. The root element of the document is at index 0; an element that no
  attached element has as a child is detached, and stays in the store. Of an element the
  store keeps what this code reads and writes: the tag name, the three \<open>data-*\<close> attributes
  and the child nodes.
\<close>

datatype child_node = TextNode jsstring | ElementNode nat

record html_element =
  tagName :: jsstring
  data_originalText :: "jsstring option"
  data_translated :: "jsstring option"
  data_aiTranslated :: "jsstring option"
  childNodes :: "child_node list"

type_synonym document = "html_element list"

text \<open>\<open>if (x)\<close> for an optional string.\<close>

definition truthy :: "jsstring option \<Rightarrow> bool" where
  "truthy x = (case x of None \<Rightarrow> False | Some s \<Rightarrow> s \<noteq> [])"

text \<open>
  The getter \<open>element.textContent\<close>: the text of all text nodes below the element, in
  document order. The recursion follows references; in a tree of \<open>n\<close> elements no path is
  longer than \<open>n\<close>, which bounds the descent.
\<close>

fun textContentN :: "nat \<Rightarrow> document \<Rightarrow> nat \<Rightarrow> jsstring" where
  "textContentN 0 d a = []"
| "textContentN (Suc n) d a =
     (if a < length d
      then concat (map (\<lambda>c. case c of TextNode s \<Rightarrow> s | ElementNode b \<Rightarrow> textContentN n d b)
                    (childNodes (d ! a)))
      else [])"

definition textContent :: "document \<Rightarrow> nat \<Rightarrow> jsstring" where
  "textContent d a = textContentN (length d) d a"

text \<open>The elements below an element, and the elements attached to the document, in document order.\<close>

fun descendantsN :: "nat \<Rightarrow> document \<Rightarrow> nat \<Rightarrow> nat list" where
  "descendantsN 0 d a = []"
| "descendantsN (Suc n) d a =
     (if a < length d
      then concat (map (\<lambda>c. case c of TextNode s \<Rightarrow> []
                              | ElementNode b \<Rightarrow> if b < length d then b # descendantsN n d b else [])
                    (childNodes (d ! a)))
      else [])"

definition descendants :: "document \<Rightarrow> nat \<Rightarrow> nat list" where
  "descendants d a = descendantsN (length d) d a"

definition attached :: "document \<Rightarrow> nat list" where
  "attached d = (if d = [] then [] else 0 # descendants d 0)"

text \<open>
  The selector engine of the browser is a parameter \<open>css\<close>: \<open>css sel d a\<close> says whether the
  element \<open>a\<close> of the document \<open>d\<close> matches the selector \<open>sel\<close>.
\<close>

definition querySelectorAll :: "(jsstring \<Rightarrow> document \<Rightarrow> nat \<Rightarrow> bool) \<Rightarrow> document \<Rightarrow> jsstring \<Rightarrow> nat list" where
  "querySelectorAll css d sel = filter (css sel d) (attached d)"

definition querySelector :: "(jsstring \<Rightarrow> document \<Rightarrow> nat \<Rightarrow> bool) \<Rightarrow> document \<Rightarrow> nat \<Rightarrow> jsstring \<Rightarrow> nat option" where
  "querySelector css d a sel = find (css sel d) (descendants d a)"

section \<open>PageTranslationService (services/pageTranslationService.ts)\<close>

record PageElement =
  element :: nat
  originalText :: jsstring
  pageTranslatedText :: "jsstring option"
  selector :: jsstring

text \<open>The \<open>elements\<close> map keeps insertion order; \<open>set\<close> on a present key keeps the key's place.\<close>

record PageTranslationService =
  elements :: "(jsstring \<times> PageElement) list"
  pageCache :: "(jsstring \<times> jsstring) list"
  isTranslated :: bool
  pageTargetLanguage :: jsstring

definition selectors :: "jsstring list" where
  "selectors =
     [ascii ''button:not(:has(svg))'',
      ascii ''.chakra-menu__menuitem'',
      ascii ''[role='' @ [0x22] @ ascii ''menuitem'' @ [0x22] @ ascii '']'',
      ascii ''.chakra-button'',
      ascii ''a[role='' @ [0x22] @ ascii ''menuitem'' @ [0x22] @ ascii '']'',
      ascii ''.sidebar-item-text'',
      ascii ''nav a'',
      ascii ''h1, h2, h3, h4, h5, h6'',
      ascii ''.form-label'',
      ascii ''.input-label'',
      ascii ''[data-translate]'']"

text \<open>The text nodes a tree walker over \<open>element\<close> accepts: the direct children that are text.\<close>

fun directTextNodes :: "child_node list \<Rightarrow> jsstring list" where
  "directTextNodes [] = []"
| "directTextNodes (TextNode s # cs) = s # directTextNodes cs"
| "directTextNodes (ElementNode b # cs) = directTextNodes cs"

definition getElementText :: "document \<Rightarrow> nat \<Rightarrow> jsstring" where
  "getElementText d a =
     (let direct = concat (directTextNodes (childNodes (d ! a)));
          str = (if trim direct = [] then textContent d a else direct)
      in trim str)"

text \<open>The characters of the class \<open>[0-9@#$%^&*()_+\-=\[\]{};':"\\|,.<>\/?]\<close>.\<close>

definition isSpecialCharacter :: "code_unit \<Rightarrow> bool" where
  "isSpecialCharacter c \<longleftrightarrow>
     (0x30 \<le> c \<and> c \<le> 0x39)
     \<or> c \<in> set (ascii ''@#$%^&*()_+-=[]{};:|,.<>/?'') \<or> c = 0x27 \<or> c = 0x22 \<or> c = 0x5C"

definition decimal_digit :: "nat \<Rightarrow> code_unit" where
  "decimal_digit n = of_nat (48 + n)"

fun decimal :: "nat \<Rightarrow> jsstring" where
  "decimal n = (if n < 10 then [decimal_digit n] else decimal (n div 10) @ [decimal_digit (n mod 10)])"

declare decimal.simps [simp del]

definition shouldSkipElement :: "(jsstring \<Rightarrow> document \<Rightarrow> nat \<Rightarrow> bool) \<Rightarrow> document \<Rightarrow> nat \<Rightarrow> bool" where
  "shouldSkipElement css d a =
     (if tagName (d ! a) = ascii ''svg'' \<or> querySelector css d a (ascii ''svg'') \<noteq> None then True
      else if tagName (d ! a) = ascii ''input'' \<or> tagName (d ! a) = ascii ''textarea'' then True
      else if list_ex isSpecialCharacter (getElementText d a) \<and> length (getElementText d a) < 10 then True
      else if data_translated (d ! a) = Some (ascii ''true'') then True
      else False)"

definition scanSelector ::
  "(jsstring \<Rightarrow> document \<Rightarrow> nat \<Rightarrow> bool) \<Rightarrow> document \<Rightarrow> jsstring
     \<Rightarrow> (jsstring \<times> PageElement) list \<Rightarrow> (jsstring \<times> PageElement) list" where
  "scanSelector css d sel found =
     (let nodes = querySelectorAll css d sel in
      fold (\<lambda>(a, index) found.
              let str = getElementText d a in
              if str \<noteq> [] \<and> trim str \<noteq> [] \<and> \<not> shouldSkipElement css d a
              then AList.update (sel @ ascii ''-'' @ decimal index @ ascii ''-'' @ take 20 str)
                     \<lparr>element = a, originalText = str, pageTranslatedText = None, selector = sel\<rparr>
                     found
              else found)
        (zip nodes [0..<length nodes]) found)"

definition scanPage ::
  "(jsstring \<Rightarrow> document \<Rightarrow> nat \<Rightarrow> bool) \<Rightarrow> document \<Rightarrow> PageTranslationService \<Rightarrow> PageTranslationService" where
  "scanPage css d s = s\<lparr>elements := fold (scanSelector css d) selectors []\<rparr>"

fun replaceFirstText :: "jsstring \<Rightarrow> child_node list \<Rightarrow> child_node list" where
  "replaceFirstText str [] = []"
| "replaceFirstText str (TextNode s # cs) = TextNode str # cs"
| "replaceFirstText str (ElementNode b # cs) = ElementNode b # replaceFirstText str cs"

text \<open>
  \<open>setElementText\<close> mutates the element it is given: the first direct text node gets the
  text, or, when there is none, the setter \<open>element.textContent\<close> replaces all children by
  one text node (by none for the empty string).
\<close>

definition setElementText :: "jsstring \<Rightarrow> html_element \<Rightarrow> html_element" where
  "setElementText str e =
     (if length (directTextNodes (childNodes e)) > 0
      then e\<lparr>childNodes := replaceFirstText str (childNodes e)\<rparr>
      else e\<lparr>childNodes := (if str = [] then [] else [TextNode str])\<rparr>)"

definition applyTranslation :: "PageElement \<Rightarrow> document \<Rightarrow> document" where
  "applyTranslation pageElement d =
     (let a = element pageElement in
      if truthy (pageTranslatedText pageElement) then
        (let e = d ! a;
             e1 = (if \<not> truthy (data_originalText e)
                   then e\<lparr>data_originalText := Some (originalText pageElement)\<rparr> else e);
             e2 = setElementText (strOr (pageTranslatedText pageElement) []) e1
         in d[a := e2\<lparr>data_translated := Some (ascii ''true'')\<rparr>])
      else d)"

text \<open>The callback of the loop of \<open>restoreAll\<close>, on the element of one entry.\<close>

definition restoreElement :: "html_element \<Rightarrow> html_element" where
  "restoreElement e =
     (if truthy (data_originalText e)
      then (setElementText (strOr (data_originalText e) []) e)\<lparr>data_translated := None\<rparr>
      else e)"

definition restoreAll :: "document \<times> PageTranslationService \<Rightarrow> document \<times> PageTranslationService" where
  "restoreAll state =
     (case state of (d, s) \<Rightarrow>
        (fold (\<lambda>(key, pageElement) d.
                 d[element pageElement := restoreElement (d ! element pageElement)])
           (elements s) d,
         s\<lparr>isTranslated := False\<rparr>))"

section \<open>The language switcher (components/NativeAILanguageSwitcher.tsx)\<close>



section \<open>\<open>generateTranslations\<close> of the generator (services/aiTranslationGenerator.ts)\<close>

text \<open>The codes of \<open>getSupportedLanguages()\<close>.\<close>

definition supportedLanguageCodes :: "jsstring list" where
  "supportedLanguageCodes =
     [ascii ''zh'', ascii ''ja'', ascii ''ko'', ascii ''fr'', ascii ''de'', ascii ''es'', ascii ''ru'',
      ascii ''it'', ascii ''pt'', ascii ''ar'']"

definition getCoreTranslations :: "(jsstring \<times> jsstring) list" where
  "getCoreTranslations =
     [(ascii ''common.welcome'', ascii ''Welcome''),
      (ascii ''common.login'', ascii ''Log In''),
      (ascii ''common.logout'', ascii ''Logout''),
      (ascii ''common.save'', ascii ''Save''),
      (ascii ''common.delete'', ascii ''Delete''),
      (ascii ''common.edit'', ascii ''Edit''),
      (ascii ''common.cancel'', ascii ''Cancel''),
      (ascii ''common.submit'', ascii ''Submit''),
      (ascii ''common.search'', ascii ''Search''),
      (ascii ''nav.home'', ascii ''Home''),
      (ascii ''nav.settings'', ascii ''Settings''),
      (ascii ''sidebar.dashboard'', ascii ''Dashboard''),
      (ascii ''sidebar.items'', ascii ''Items''),
      (ascii ''sidebar.userSettings'', ascii ''User Settings''),
      (ascii ''sidebar.admin'', ascii ''Admin''),
      (ascii ''settings.title'', ascii ''User Settings''),
      (ascii ''auth.loginTitle'', ascii ''Sign in to your account''),
      (ascii ''auth.email'', ascii ''Email''),
      (ascii ''auth.password'', ascii ''Password''),
      (ascii ''auth.fullName'', ascii ''Full Name''),
      (ascii ''dashboard.greeting'', ascii ''Hi, {{name}}''),
      (ascii ''dashboard.welcomeBack'', ascii ''Welcome back, nice to see you again!''),
      (ascii ''items.title'', ascii ''Items Management''),
      (ascii ''users.title'', ascii ''Users Management'')]"

text \<open>
  A record of translations by key (\<open>Record<string, string>\<close>), in insertion order. The state of
  the application as \<open>generateTranslations\<close> and the hook \<open>useDynamicTranslation\<close> see it: the
  item \<open>ai_language\<close> of the local storage, the language and the resource bundles (namespace
  \<open>translation\<close>) of i18next, the two state variables of the hook, the cache of the generator,
  and the batch requests sent so far.
\<close>

type_synonym resource_bundle = "(jsstring \<times> js_value) list"

record app =
  persistedAILanguage :: "jsstring option"
  i18nLanguage :: jsstring
  i18nResources :: "jsstring \<Rightarrow> jsstring \<rightharpoonup> js_value"
  dynamicTranslations :: "(jsstring \<times> resource_bundle) list"
  isTranslating :: bool
  generatorCache :: "(jsstring \<times> resource_bundle) list"
  batchRequests :: "batch_request list"

text \<open>
  \<open>generateTranslations\<close>: a cached record is returned as it is; otherwise the core texts are
  translated in batches of thirty (the loop \<open>for (let i = 0; i < entries.length; i += 30)\<close>)
  and the record of the results is cached. \<open>translateBatchOptimized\<close> never throws, so the
  \<open>catch\<close> block is not reached.
\<close>

definition batchStarts :: "nat \<Rightarrow> nat list" where
  "batchStarts n = map (\<lambda>k. 30 * k) [0..<(n + 29) div 30]"

definition generateTranslations ::
  "jsstring \<Rightarrow> (batch_request \<Rightarrow> batch_fetch_result) \<Rightarrow> jsstring \<Rightarrow> app \<Rightarrow> resource_bundle \<times> app" where
  "generateTranslations baseUrl fetchBatch lang st =
     (let cacheKey = ascii ''core-'' @ lang in
      case map_of (generatorCache st) cacheKey of
        Some cached \<Rightarrow> (cached, st)
      | None \<Rightarrow>
          (let entries = getCoreTranslations;
               (result, issued) =
                 fold (\<lambda>i (result, issued).
                         let batch = take 30 (drop i entries);
                             (batchTranslations, sent) =
                               translateBatchOptimized baseUrl fetchBatch lang
                                 (map (\<lambda>(key, str). \<lparr>item_key = key, item_text = str\<rparr>) batch)
                         in (fold (\<lambda>item result. AList.update (result_key item) (translated item) result)
                               batchTranslations result,
                             issued @ sent))
                   (batchStarts (length entries)) ([], [])
           in (result, st\<lparr>generatorCache := AList.update cacheKey result (generatorCache st),
                           batchRequests := batchRequests st @ issued\<rparr>)))"

section \<open>The hook \<open>useDynamicTranslation\<close> (hooks/useDynamicTranslation.ts)\<close>

text \<open>
  A callback of the hook closes over the value \<open>dynamicTranslations\<close> had in the render that
  created it: the parameter \<open>seen\<close>. Both lookups \<open>dynamicTranslations[language]\<close> are made for
  a code of the supported list only, none of which names a member of \<open>Object.prototype\<close>.
\<close>

definition isAILanguage :: "jsstring \<Rightarrow> bool" where
  "isAILanguage languageCode \<longleftrightarrow> list_ex (\<lambda>code. code = languageCode) supportedLanguageCodes"

definition loadAITranslations ::
  "jsstring \<Rightarrow> (batch_request \<Rightarrow> batch_fetch_result) \<Rightarrow> (jsstring \<times> resource_bundle) list \<Rightarrow> jsstring
     \<Rightarrow> app \<Rightarrow> bool \<times> app" where
  "loadAITranslations baseUrl fetchBatch seen lang st =
     (if \<not> isAILanguage lang then (False, st)
      else if map_of seen lang \<noteq> None then (True, st)
      else
        (let st1 = st\<lparr>isTranslating := True\<rparr>;
             (translations, st2) = generateTranslations baseUrl fetchBatch lang st1
         in if length translations > 0
            then (True, st2\<lparr>dynamicTranslations := AList.update lang translations (dynamicTranslations st2),
                            isTranslating := False\<rparr>)
            else (False, st2\<lparr>isTranslating := False\<rparr>)))"

text \<open>
  \<open>i18n.addResourceBundle(language, 'translation', bundle, true, true)\<close> extends the bundle of
  the language and overwrites the keys it has; \<open>i18n.changeLanguage\<close> sets the language.
\<close>

definition addResourceBundle :: "jsstring \<Rightarrow> resource_bundle \<Rightarrow> app \<Rightarrow> app" where
  "addResourceBundle lang bundle st =
     st\<lparr>i18nResources := (i18nResources st)(lang := i18nResources st lang ++ map_of bundle)\<rparr>"

definition changeLanguage :: "jsstring \<Rightarrow> app \<Rightarrow> app" where
  "changeLanguage lang st = st\<lparr>i18nLanguage := lang\<rparr>"

text \<open>
  The effect \<open>useEffect(..., [isAILanguage, loadAITranslations, dynamicTranslations, i18n])\<close>
  of the hook: the callback of \<open>then\<close> reads \<open>dynamicTranslations\<close> of the same render.
\<close>

definition mountEffect ::
  "jsstring \<Rightarrow> (batch_request \<Rightarrow> batch_fetch_result) \<Rightarrow> (jsstring \<times> resource_bundle) list \<Rightarrow> app \<Rightarrow> app" where
  "mountEffect baseUrl fetchBatch seen st =
     (case persistedAILanguage st of
        None \<Rightarrow> st
      | Some aiLanguage \<Rightarrow>
          if aiLanguage \<noteq> [] \<and> isAILanguage aiLanguage then
            (let (loaded, st1) = loadAITranslations baseUrl fetchBatch seen aiLanguage st in
             case map_of seen aiLanguage of
               Some bundle \<Rightarrow>
                 if loaded then changeLanguage aiLanguage (addResourceBundle aiLanguage bundle st1) else st1
             | None \<Rightarrow> st1)
          else st)"

text \<open>
  React runs the effect after the first render, and again after every render in which one
  of its dependencies has changed: here, whenever the run before has set
  \<open>dynamicTranslations\<close>. Each such run adds a supported language to \<open>dynamicTranslations\<close>, so
  the effect settles.
\<close>

function runMountEffect :: "jsstring \<Rightarrow> (batch_request \<Rightarrow> batch_fetch_result) \<Rightarrow> app \<Rightarrow> app" where
  "runMountEffect baseUrl fetchBatch st =
     (let st' = mountEffect baseUrl fetchBatch (dynamicTranslations st) st in
      if dynamicTranslations st' = dynamicTranslations st then st'
      else runMountEffect baseUrl fetchBatch st')"
  by pat_completeness auto
termination
proof (relation "measure (\<lambda>(baseUrl, fetchBatch, st).
          length (filter (\<lambda>l. map_of (dynamicTranslations st) l = None) supportedLanguageCodes))")
  show "wf (measure (\<lambda>(baseUrl, fetchBatch, st).
          length (filter (\<lambda>l. map_of (dynamicTranslations st) l = None) supportedLanguageCodes)))"
    by simp
next
  fix baseUrl :: jsstring and fetchBatch :: "batch_request \<Rightarrow> batch_fetch_result" and st x :: app
  assume x: "x = mountEffect baseUrl fetchBatch (dynamicTranslations st) st"
    and ne: "dynamicTranslations x \<noteq> dynamicTranslations st"
  have gen: "dynamicTranslations (snd (generateTranslations baseUrl fetchBatch l v)) = dynamicTranslations v"
    for l v
    by (simp add: generateTranslations_def Let_def split: option.splits prod.splits)
  have load: "dynamicTranslations (snd (loadAITranslations baseUrl fetchBatch (dynamicTranslations st) l st))
       = dynamicTranslations st
     \<or> (l \<in> set supportedLanguageCodes \<and> map_of (dynamicTranslations st) l = None
         \<and> (\<exists>t. dynamicTranslations (snd (loadAITranslations baseUrl fetchBatch (dynamicTranslations st) l st))
               = AList.update l t (dynamicTranslations st)))" for l
  proof -
    obtain t st2 where g: "generateTranslations baseUrl fetchBatch l (st\<lparr>isTranslating := True\<rparr>) = (t, st2)"
      by (cases "generateTranslations baseUrl fetchBatch l (st\<lparr>isTranslating := True\<rparr>)")
    have "dynamicTranslations st2 = dynamicTranslations st"
      using gen[of l "st\<lparr>isTranslating := True\<rparr>"] g by simp
    then show ?thesis
      using g by (auto simp: loadAITranslations_def isAILanguage_def list_ex_iff Let_def)
  qed
  have "\<exists>lang t. lang \<in> set supportedLanguageCodes \<and> map_of (dynamicTranslations st) lang = None
         \<and> dynamicTranslations x = AList.update lang t (dynamicTranslations st)"
  proof (cases "persistedAILanguage st")
    case None
    then show ?thesis using x ne by (simp add: mountEffect_def)
  next
    case (Some l)
    show ?thesis
    proof (cases "l \<noteq> [] \<and> isAILanguage l")
      case False
      then show ?thesis using Some x ne by (auto simp: mountEffect_def)
    next
      case True
      obtain loaded st1 where
        ld: "loadAITranslations baseUrl fetchBatch (dynamicTranslations st) l st = (loaded, st1)"
        by (cases "loadAITranslations baseUrl fetchBatch (dynamicTranslations st) l st")
      have "dynamicTranslations x = dynamicTranslations st1"
        using Some True ld x
        by (auto simp: mountEffect_def addResourceBundle_def changeLanguage_def split: option.splits)
      then show ?thesis using load[of l] ld ne by auto
    qed
  qed
  then obtain lang t where l: "lang \<in> set supportedLanguageCodes" "map_of (dynamicTranslations st) lang = None"
    and u: "dynamicTranslations x = AList.update lang t (dynamicTranslations st)"
    by auto
  have less: "length (filter Q xs) < length (filter P xs)"
    if "\<And>y. Q y \<Longrightarrow> P y" "z \<in> set xs" "P z" "\<not> Q z" for P Q :: "jsstring \<Rightarrow> bool" and xs z
    using that
  proof (induction xs)
    case Nil
    then show ?case by simp
  next
    case (Cons a xs)
    have le: "length (filter Q xs) \<le> length (filter P xs)"
      using Cons.prems(1) by (induction xs) auto
    show ?case
    proof (cases "z = a")
      case True
      then show ?thesis using Cons.prems le by simp
    next
      case False
      then have "length (filter Q xs) < length (filter P xs)" using Cons by simp
      then show ?thesis using Cons.prems(1) by auto
    qed
  qed
  have "length (filter (\<lambda>l. map_of (dynamicTranslations x) l = None) supportedLanguageCodes)
      < length (filter (\<lambda>l. map_of (dynamicTranslations st) l = None) supportedLanguageCodes)"
  proof (rule less[of _ _ lang])
    show "lang \<in> set supportedLanguageCodes" by (rule l(1))
    show "map_of (dynamicTranslations st) lang = None" by (rule l(2))
    show "\<not> map_of (dynamicTranslations x) lang = None" by (simp add: u update_conv')
    show "map_of (dynamicTranslations st) y = None" if "map_of (dynamicTranslations x) y = None" for y
      using that by (cases "y = lang") (simp_all add: u update_conv' l(2))
  qed
  then show "((baseUrl, fetchBatch, x), (baseUrl, fetchBatch, st))
      \<in> measure (\<lambda>(baseUrl, fetchBatch, st).
          length (filter (\<lambda>l. map_of (dynamicTranslations st) l = None) supportedLanguageCodes))"
    by simp
qed

section \<open>Auxiliary definitions for the properties\<close>

subsection \<open>Parts of the functions above, named for the proofs\<close>

text \<open>The entry \<open>set\<close> writes, and the state \<open>set\<close> hands to \<open>saveCache\<close>.\<close>

definition newEntry :: "env \<Rightarrow> TranslationResponse \<Rightarrow> world \<Rightarrow> CacheEntry" where
  "newEntry E response w =
     \<lparr>cachedText = translatedText response,
      timestamp = dateNow E (nowCalls w),
      expiresAt = dateNow E (nowCalls w) + numOr (cacheExpiration (getAIConfig E)) (24 * 60 * 60 * 1000)\<rparr>"

definition afterWrite :: "env \<Rightarrow> TranslationRequest \<Rightarrow> TranslationResponse \<Rightarrow> world \<Rightarrow> world" where
  "afterWrite E request response w =
     (let w3 = w\<lparr>nowCalls := Suc (nowCalls w),
                 cache := AList.update (generateCacheKey request) (newEntry E response w) (cache w),
                 randomCalls := Suc (randomCalls w)\<rparr>
      in if mathRandom E (randomCalls w) < 1 / 10 then cleanupExpiredEntries E w3 else w3)"

text \<open>The result \<open>translateBatch\<close> substitutes for an item whose \<open>translate\<close> call throws.\<close>

definition fallbackResult :: "TranslationRequest \<Rightarrow> TranslationResponse" where
  "fallbackResult request =
     \<lparr>translatedText = req_text request, sourceLanguage = req_from request,
      targetLanguage = req_to request\<rparr>"

text \<open>In \<open>translateBatchOptimized\<close>: the items sent to the provider, the one request that
  carries them, and whether a reply answers them item by item.\<close>

definition pending :: "jsstring \<Rightarrow> batch_item list \<Rightarrow> batch_item list" where
  "pending lang items = filter (\<lambda>item. isAlreadyTranslated (item_text item) lang \<noteq> Some True) items"

definition batchRequest :: "jsstring \<Rightarrow> jsstring \<Rightarrow> batch_item list \<Rightarrow> batch_request" where
  "batchRequest baseUrl lang items =
     \<lparr>url = baseUrl @ ascii ''/translate/batch'',
      texts = map item_text (pending lang items),
      source_language = ascii ''auto'',
      target_language = lang,
      request_context = ascii ''web interface UI text translation''\<rparr>"

definition answers :: "batch_fetch_result \<Rightarrow> nat \<Rightarrow> bool" where
  "answers reply n =
     (case reply of
        BatchRejected \<Rightarrow> False
      | BatchResponded response \<Rightarrow>
          reply_ok response
          \<and> (case reply_body response of
                ReplyData (Some translations) \<Rightarrow> length translations \<le> n \<and> NullItem \<notin> set translations
              | _ \<Rightarrow> False))"

text \<open>What the fallback gives an item: the built-in string for its key, else its own text
  (or, for a key that names a member of \<open>Object.prototype\<close>, that member).\<close>

definition fallbackFor :: "batch_item \<Rightarrow> js_value" where
  "fallbackFor item =
     (if item_key item = ascii ''common.welcome'' then Str (ascii ''Welcome'')
      else if item_key item = ascii ''common.login'' then Str (ascii ''Log In'')
      else if item_key item = ascii ''common.logout'' then Str (ascii ''Logout'')
      else if item_key item = ascii ''common.save'' then Str (ascii ''Save'')
      else if item_key item = ascii ''common.delete'' then Str (ascii ''Delete'')
      else if item_key item = ascii ''common.edit'' then Str (ascii ''Edit'')
      else if item_key item = ascii ''nav.home'' then Str (ascii ''Home'')
      else if item_key item = ascii ''nav.settings'' then Str (ascii ''Settings'')
      else if item_key item = ascii ''sidebar.dashboard'' then Str (ascii ''Dashboard'')
      else if item_key item = ascii ''sidebar.items'' then Str (ascii ''Items'')
      else if item_key item = ascii ''sidebar.userSettings'' then Str (ascii ''User Settings'')
      else if item_key item = ascii ''settings.title'' then Str (ascii ''User Settings'')
      else if item_key item = ascii ''auth.loginTitle'' then Str (ascii ''Sign in to your account'')
      else if item_key item = ascii ''auth.email'' then Str (ascii ''Email'')
      else if item_key item = ascii ''auth.password'' then Str (ascii ''Password'')
      else if item_key item \<in> set objectPrototypeNames then Member (item_key item)
      else Str (item_text item))"

definition unchangedItems :: "batch_item list \<Rightarrow> translated_item list" where
  "unchangedItems items = map (\<lambda>item. \<lparr>result_key = item_key item, translated = Str (item_text item)\<rparr>) items"

text \<open>One step of the loop of \<open>restoreAll\<close>, and of the loop of \<open>restoreOriginalText\<close> with the
  document it produces.\<close>

definition restoreStep :: "jsstring \<times> PageElement \<Rightarrow> document \<Rightarrow> document" where
  "restoreStep entry d = d[element (snd entry) := restoreElement (d ! element (snd entry))]"

definition clearedElement :: "html_element \<Rightarrow> html_element" where
  "clearedElement e = e\<lparr>childNodes := [TextNode (strOr (data_originalText e) [])],
                        data_originalText := None, data_aiTranslated := None\<rparr>"

definition restoreTextStep :: "nat \<Rightarrow> document \<Rightarrow> document" where
  "restoreTextStep a d = (if truthy (data_originalText (d ! a)) then d[a := clearedElement (d ! a)] else d)"


subsection \<open>Notions of the claims\<close>

text \<open>The store holds no empty translation.\<close>

definition cacheTextsNonEmpty :: "TranslationCache \<Rightarrow> bool" where
  "cacheTextsNonEmpty c \<longleftrightarrow> (\<forall>(key, e)\<in>set c. cachedText e \<noteq> [])"

text \<open>
  In the words of the claim on key normalisation: two texts differ only in letter case, in
  leading or trailing white space, or in an inner white-space run written as one
  underscore; and any chain of such differences.
\<close>

definition sameLetter :: "code_unit \<Rightarrow> code_unit \<Rightarrow> bool" where
  "sameLetter x y \<longleftrightarrow>
     x = y \<or> (0x41 \<le> x \<and> x \<le> 0x5A \<and> y = x + 0x20) \<or> (0x41 \<le> y \<and> y \<le> 0x5A \<and> x = y + 0x20)"

inductive differOnlyInCaseOrSpacing :: "jsstring \<Rightarrow> jsstring \<Rightarrow> bool" where
  letterCase: "list_all2 sameLetter a b \<Longrightarrow> differOnlyInCaseOrSpacing a b"
| padding: "\<forall>c\<in>set l. isWhiteSpace c \<Longrightarrow> \<forall>c\<in>set r. isWhiteSpace c
     \<Longrightarrow> differOnlyInCaseOrSpacing a (l @ a @ r)"
| underscore: "run \<noteq> [] \<Longrightarrow> \<forall>c\<in>set run. isWhiteSpace c
     \<Longrightarrow> p \<noteq> [] \<Longrightarrow> \<not> isWhiteSpace (last p) \<Longrightarrow> q \<noteq> [] \<Longrightarrow> \<not> isWhiteSpace (hd q)
     \<Longrightarrow> differOnlyInCaseOrSpacing (p @ run @ q) (p @ [0x5F] @ q)"
| symmetric: "differOnlyInCaseOrSpacing a b \<Longrightarrow> differOnlyInCaseOrSpacing b a"
| transitive: "differOnlyInCaseOrSpacing a b \<Longrightarrow> differOnlyInCaseOrSpacing b c
     \<Longrightarrow> differOnlyInCaseOrSpacing a c"

subsection \<open>Concrete inputs\<close>

text \<open>
  The configuration a stored \<open>{"provider": null}\<close> gives, and one with a negative timeout.
  An environment with nothing stored as configuration, whose clock advances by one
  millisecond per reading, whose storage never fails, whose random numbers never trigger
  the clean-up and whose network is down; the state before any call.
\<close>

definition nullProvider :: AITranslationConfig where
  "nullProvider = DEFAULT_AI_CONFIG\<lparr>provider := None\<rparr>"

definition negativeTimeout :: AITranslationConfig where
  "negativeTimeout = DEFAULT_AI_CONFIG\<lparr>timeout := Some (- 1)\<rparr>"

definition quietEnv :: env where
  "quietEnv = \<lparr>dateNow = int, mathRandom = (\<lambda>n. 1 / 2), setItemThrows = (\<lambda>n. False),
                fetch = (\<lambda>n rq. Rejected), storedConfig = None\<rparr>"

definition emptyWorld :: world where
  "emptyWorld = \<lparr>cache = [], persisted = None, nowCalls = 0, randomCalls = 0, setItemCalls = 0,
                  requests = []\<rparr>"

text \<open>A request for \<open>Save\<close> with automatic source language, the same in lower case, and a
  response that names its source language.\<close>

definition saveRequest :: TranslationRequest where
  "saveRequest = \<lparr>req_text = ascii ''Save'', req_from = ascii ''auto'', req_to = ascii ''zh'',
                   req_context = None\<rparr>"


definition saveResponse :: TranslationResponse where
  "saveResponse = \<lparr>translatedText = [0x4FDD, 0x5B58], sourceLanguage = ascii ''en'',
                    targetLanguage = ascii ''zh''\<rparr>"

text \<open>A batch of three requests, in an environment whose second network call fails.\<close>

definition translatedReply :: http_response where
  "translatedReply = \<lparr>ok = True, status = 200, statusText = ascii ''OK'', body = Parsed (Some [0x597D])\<rparr>"

definition flakyEnv :: env where
  "flakyEnv = \<lparr>dateNow = int, mathRandom = (\<lambda>n. 1 / 2), setItemThrows = (\<lambda>n. False),
                fetch = (\<lambda>n rq. if n = 1 then Rejected else Responded translatedReply),
                storedConfig = None\<rparr>"

definition textRequest :: "string \<Rightarrow> TranslationRequest" where
  "textRequest s = \<lparr>req_text = ascii s, req_from = ascii ''en'', req_to = ascii ''zh'', req_context = None\<rparr>"

definition threeRequests :: "TranslationRequest list" where
  "threeRequests = [textRequest ''a'', textRequest ''b'', textRequest ''c'']"

text \<open>The state after \<open>m\<close> calls of \<open>set\<close> with the texts \<open>x\<close>, \<open>xx\<close>, \<open>xxx\<close>, ...\<close>

definition numberedRequest :: "nat \<Rightarrow> TranslationRequest" where
  "numberedRequest n =
     \<lparr>req_text = replicate (Suc n) 0x78, req_from = ascii ''en'', req_to = ascii ''zh'',
      req_context = None\<rparr>"

definition afterSets :: "nat \<Rightarrow> world" where
  "afterSets m = fold (\<lambda>n. cacheSet quietEnv (numberedRequest n) saveResponse) [0..<m] emptyWorld"

text \<open>Items for the optimized batch, the first already Chinese, and a reply that translates
  the second.\<close>

definition greeting :: jsstring where
  "greeting = [0x4F60, 0x597D]"

definition savedItems :: "batch_item list" where
  "savedItems = [\<lparr>item_key = ascii ''common.save'', item_text = [0x4FDD, 0x5B58]\<rparr>,
                 \<lparr>item_key = ascii ''greeting'', item_text = ascii ''Hello''\<rparr>]"

definition greetingReply :: batch_fetch_result where
  "greetingReply = BatchResponded \<lparr>reply_ok = True, reply_status = 200, reply_statusText = ascii ''OK'',
                                    reply_body = ReplyData (Some [Item (Some greeting)])\<rparr>"

text \<open>
  The document \<open><html><h1>Hi<span>yo</span></h1></html>\<close>, a selector engine for it (the
  heading selector matches the elements \<open>H1\<close>, no other selector matches), the service
  before and after scanning it, and the heading as a page element with a translation.
\<close>

definition bareElement :: "string \<Rightarrow> child_node list \<Rightarrow> html_element" where
  "bareElement tag children =
     \<lparr>tagName = ascii tag, data_originalText = None, data_translated = None,
      data_aiTranslated = None, childNodes = children\<rparr>"

definition headingDocument :: document where
  "headingDocument =
     [bareElement ''HTML'' [ElementNode 1],
      bareElement ''H1'' [TextNode (ascii ''Hi''), ElementNode 2],
      bareElement ''SPAN'' [TextNode (ascii ''yo'')]]"

definition headingCss :: "jsstring \<Rightarrow> document \<Rightarrow> nat \<Rightarrow> bool" where
  "headingCss sel d a \<longleftrightarrow> sel = ascii ''h1, h2, h3, h4, h5, h6'' \<and> tagName (d ! a) = ascii ''H1''"

definition newService :: PageTranslationService where
  "newService = \<lparr>elements = [], pageCache = [], isTranslated = False, pageTargetLanguage = ascii ''zh''\<rparr>"

definition scannedHeading :: PageElement where
  "scannedHeading =
     \<lparr>element = 1, originalText = ascii ''Hi'', pageTranslatedText = None,
      selector = ascii ''h1, h2, h3, h4, h5, h6''\<rparr>"



text \<open>
  The document \<open><html><label>Hello <br>World</label></html>\<close>, whose label has two direct text
  nodes, as the scanner records it, with a translation, and as apply and restore leave it.
  The document \<open><html><h2>LF SP<span>Title</span></h2></html>\<close>, whose heading has a blank
  direct text node, in the same way.
\<close>

definition labelDocument :: document where
  "labelDocument =
     [bareElement ''HTML'' [ElementNode 1],
      bareElement ''LABEL'' [TextNode (ascii ''Hello ''), ElementNode 2, TextNode (ascii ''World'')],
      bareElement ''BR'' []]"

definition scannedLabel :: PageElement where
  "scannedLabel =
     \<lparr>element = 1, originalText = ascii ''Hello World'', pageTranslatedText = None,
      selector = ascii ''.form-label''\<rparr>"

definition translatedLabel :: PageElement where
  "translatedLabel = scannedLabel\<lparr>pageTranslatedText := Some [0x4F60, 0x597D]\<rparr>"

definition labelService :: PageTranslationService where
  "labelService = newService\<lparr>elements := [(ascii ''.form-label-0-Hello World'', scannedLabel)]\<rparr>"

definition restoredLabelDocument :: document where
  "restoredLabelDocument =
     [bareElement ''HTML'' [ElementNode 1],
      (bareElement ''LABEL'' [TextNode (ascii ''Hello World''), ElementNode 2, TextNode (ascii ''World'')])
         \<lparr>data_originalText := Some (ascii ''Hello World'')\<rparr>,
      bareElement ''BR'' []]"

definition titleDocument :: document where
  "titleDocument =
     [bareElement ''HTML'' [ElementNode 1],
      bareElement ''H2'' [TextNode [0x0A, 0x20], ElementNode 2],
      bareElement ''SPAN'' [TextNode (ascii ''Title'')]]"

definition scannedTitle :: PageElement where
  "scannedTitle =
     \<lparr>element = 1, originalText = ascii ''Title'', pageTranslatedText = None,
      selector = ascii ''h1, h2, h3, h4, h5, h6''\<rparr>"

definition translatedTitle :: PageElement where
  "translatedTitle = scannedTitle\<lparr>pageTranslatedText := Some [0x6807, 0x9898]\<rparr>"

definition titleService :: PageTranslationService where
  "titleService = newService\<lparr>elements := [(ascii ''h1, h2, h3, h4, h5, h6-0-Title'', scannedTitle)]\<rparr>"

definition restoredTitleDocument :: document where
  "restoredTitleDocument =
     [bareElement ''HTML'' [ElementNode 1],
      (bareElement ''H2'' [TextNode (ascii ''Title''), ElementNode 2])
         \<lparr>data_originalText := Some (ascii ''Title'')\<rparr>,
      bareElement ''SPAN'' [TextNode (ascii ''Title'')]]"









section \<open>Properties of the translation cache\<close>

lemma setItem_cache [simp]: "cache (snd (setItem E w)) = cache w"
  and setItem_nowCalls [simp]: "nowCalls (snd (setItem E w)) = nowCalls w"
  and setItem_requests [simp]: "requests (snd (setItem E w)) = requests w"
  by (simp_all add: setItem_def)

lemma setItem_fst: "fst (setItem E w) = (\<not> setItemThrows E (setItemCalls w))"
  by (simp add: setItem_def)

lemma cleanupOldEntries_nowCalls [simp]: "nowCalls (cleanupOldEntries w) = nowCalls w"
  and cleanupOldEntries_requests [simp]: "requests (cleanupOldEntries w) = requests w"
  by (simp_all add: cleanupOldEntries_def Let_def)

lemma cleanupOldEntries_small: "length (cache w) \<le> MAX_CACHE_SIZE \<Longrightarrow> cleanupOldEntries w = w"
  by (simp add: cleanupOldEntries_def)

lemma set_fold_delete: "set (fold (\<lambda>(key, e) c. AList.delete key c) ds al) \<subseteq> set al"
proof (induction ds arbitrary: al)
  case Nil
  then show ?case by simp
next
  case (Cons d ds)
  have "set (AList.delete (fst d) al) \<subseteq> set al" by (auto simp: AList.delete_eq)
  with Cons[of "AList.delete (fst d) al"] show ?case by (cases d) auto
qed

lemma cleanupOldEntries_subset: "set (cache (cleanupOldEntries w)) \<subseteq> set (cache w)"
proof (cases "length (cache w) > MAX_CACHE_SIZE")
  case True
  then have "cache (cleanupOldEntries w) =
      fold (\<lambda>(key, e) c. AList.delete key c)
        (take (length (cache w) - MAX_CACHE_SIZE + 100) (sort_key (\<lambda>(key, e). timestamp e) (cache w))) (cache w)"
    by (simp add: cleanupOldEntries_def Let_def)
  then show ?thesis by (simp only: set_fold_delete)
next
  case False
  then show ?thesis by (simp add: cleanupOldEntries_def)
qed

lemma saveCache_unfold:
  "saveCache E w =
     (if setItemThrows E (setItemCalls w)
      then snd (setItem E (cleanupOldEntries (w\<lparr>setItemCalls := Suc (setItemCalls w)\<rparr>)))
      else w\<lparr>persisted := Some (cache w), setItemCalls := Suc (setItemCalls w)\<rparr>)"
  by (simp add: saveCache_def setItem_def)

lemma saveCache_nowCalls [simp]: "nowCalls (saveCache E w) = nowCalls w"
  and saveCache_requests [simp]: "requests (saveCache E w) = requests w"
  by (simp_all add: saveCache_unfold)

lemma saveCache_subset: "set (cache (saveCache E w)) \<subseteq> set (cache w)"
  using cleanupOldEntries_subset[of "w\<lparr>setItemCalls := Suc (setItemCalls w)\<rparr>"]
  by (simp add: saveCache_unfold)

lemma saveCache_noevict:
  "\<not> setItemThrows E (setItemCalls w) \<or> length (cache w) \<le> MAX_CACHE_SIZE \<Longrightarrow> cache (saveCache E w) = cache w"
  by (auto simp: saveCache_unfold cleanupOldEntries_small)

lemma map_of_filter_entries:
  "distinct (map fst al) \<Longrightarrow>
   map_of (filter (\<lambda>(k, e). P e) al) k =
     (case map_of al k of None \<Rightarrow> None | Some v \<Rightarrow> if P v then Some v else None)"
proof (induction al)
  case Nil
  then show ?case by simp
next
  case (Cons a al)
  obtain k' v' where a: "a = (k', v')" by (cases a)
  show ?case
  proof (cases "k' = k")
    case True
    with Cons.prems a have "k \<notin> fst ` set al" by auto
    then have "map_of al k = None" "map_of (filter (\<lambda>(k, e). P e) al) k = None"
      by (auto simp: map_of_eq_None_iff)
    with True a show ?thesis by simp
  next
    case False
    with Cons a show ?thesis by simp
  qed
qed

lemma length_update_le: "length (AList.update k v al) \<le> Suc (length al)"
  by (induction al) auto

lemma cleanupExpiredEntries_simps [simp]:
  "cache (cleanupExpiredEntries E w) = filter (\<lambda>(key, e). \<not> expiresAt e < dateNow E (nowCalls w)) (cache w)"
  "nowCalls (cleanupExpiredEntries E w) = Suc (nowCalls w)"
  "setItemCalls (cleanupExpiredEntries E w) = setItemCalls w"
  "requests (cleanupExpiredEntries E w) = requests w"
  by (simp_all add: cleanupExpiredEntries_def Let_def)

lemma cacheSet_unfold: "cacheSet E request response w = saveCache E (afterWrite E request response w)"
  by (simp add: cacheSet_def afterWrite_def newEntry_def Let_def)

lemma afterWrite_simps:
  "setItemCalls (afterWrite E request response w) = setItemCalls w"
  "requests (afterWrite E request response w) = requests w"
  "Suc (nowCalls w) \<le> nowCalls (afterWrite E request response w)"
  "set (cache (afterWrite E request response w))
     \<subseteq> set (AList.update (generateCacheKey request) (newEntry E response w) (cache w))"
  "length (cache (afterWrite E request response w)) \<le> Suc (length (cache w))"
  by (auto simp add: afterWrite_def Let_def length_update_le intro: le_trans[OF length_filter_le])

lemma afterWrite_lookup:
  assumes "dateNow E (Suc (nowCalls w)) \<le> expiresAt (newEntry E response w)"
  shows "map_of (cache (afterWrite E request response w)) (generateCacheKey request) = Some (newEntry E response w)"
proof -
  let ?k = "generateCacheKey request" and ?e = "newEntry E response w"
  have u: "map_of (AList.update ?k ?e (cache w)) ?k = Some ?e" by (simp add: update_conv')
  have "map_of (filter (\<lambda>(key, e). \<not> expiresAt e < dateNow E (Suc (nowCalls w))) (AList.update ?k ?e (cache w))) ?k = Some ?e"
    using u assms by (intro map_of_filter_in) auto
  with u show ?thesis by (simp add: afterWrite_def Let_def)
qed

lemma get_after_set:
  assumes key: "generateCacheKey r2 = generateCacheKey r1"
    and mono: "mono (dateNow E)"
    and ne: "\<not> setItemThrows E (setItemCalls w) \<or> length (cache w) < MAX_CACHE_SIZE"
    and fresh: "dateNow E (nowCalls (cacheSet E r1 resp w)) \<le> expiresAt (newEntry E resp w)"
  shows "fst (cacheGet E r2 (cacheSet E r1 resp w)) =
           Some \<lparr>translatedText = translatedText resp, sourceLanguage = req_from r2, targetLanguage = req_to r2\<rparr>"
proof -
  let ?w' = "cacheSet E r1 resp w" and ?a = "afterWrite E r1 resp w"
  have n: "nowCalls ?w' = nowCalls ?a" by (simp add: cacheSet_unfold)
  have "Suc (nowCalls w) \<le> nowCalls ?w'" using afterWrite_simps(3) n by simp
  then have "dateNow E (Suc (nowCalls w)) \<le> dateNow E (nowCalls ?w')" using mono by (simp add: monoD)
  with fresh have live: "dateNow E (Suc (nowCalls w)) \<le> expiresAt (newEntry E resp w)" by simp
  have "\<not> setItemThrows E (setItemCalls ?a) \<or> length (cache ?a) \<le> MAX_CACHE_SIZE"
    using ne afterWrite_simps(1,5)[of E r1 resp w] by auto
  then have "cache ?w' = cache ?a" by (simp add: cacheSet_unfold saveCache_noevict)
  then have "map_of (cache ?w') (generateCacheKey r2) = Some (newEntry E resp w)"
    using afterWrite_lookup[OF live] key by simp
  then show ?thesis using fresh by (simp add: cacheGet_def Let_def newEntry_def)
qed

lemma map_of_subset:
  assumes "distinct (map fst al)" "set bl \<subseteq> set al" "map_of bl k = Some v"
  shows "map_of al k = Some v"
  using assms by (meson map_of_SomeD map_of_is_SomeI subsetD)

lemma map_of_subset_None:
  assumes "set bl \<subseteq> set al" "map_of al k = None"
  shows "map_of bl k = None"
  using assms by (metis map_of_SomeD not_None_eq weak_map_of_SomeI subsetD)

lemma get_expired:
  assumes d: "distinct (map fst (cache w))"
    and old: "expiresAt (newEntry E resp w) < dateNow E (nowCalls (cacheSet E r resp w))"
  shows "fst (cacheGet E r (cacheSet E r resp w)) = None
       \<and> map_of (cache (snd (cacheGet E r (cacheSet E r resp w)))) (generateCacheKey r) = None"
proof -
  let ?w' = "cacheSet E r resp w" and ?a = "afterWrite E r resp w"
  let ?k = "generateCacheKey r" and ?e = "newEntry E resp w"
  let ?U = "AList.update ?k ?e (cache w)"
  have dU: "distinct (map fst ?U)" using d by (simp add: distinct_update)
  have sub: "set (cache ?w') \<subseteq> set ?U"
    using saveCache_subset[of E ?a] afterWrite_simps(4)[of E r resp w] by (auto simp: cacheSet_unfold)
  have U: "map_of ?U ?k = Some ?e" by (simp add: update_conv')
  show ?thesis
  proof (cases "map_of (cache ?w') ?k")
    case None
    then show ?thesis by (simp add: cacheGet_def)
  next
    case (Some v)
    then have "v = ?e" using map_of_subset[OF dU sub Some] U by simp
    with Some old have g: "cacheGet E r ?w' =
        (None, saveCache E (?w'\<lparr>nowCalls := Suc (nowCalls ?w'), cache := AList.delete ?k (cache ?w')\<rparr>))"
      by (simp add: cacheGet_def Let_def)
    let ?W = "?w'\<lparr>nowCalls := Suc (nowCalls ?w'), cache := AList.delete ?k (cache ?w')\<rparr>"
    have "map_of (cache ?W) ?k = None" by (simp add: delete_conv')
    then have "map_of (cache (saveCache E ?W)) ?k = None"
      by (rule map_of_subset_None[OF saveCache_subset])
    with g show ?thesis by simp
  qed
qed

lemma isWhiteSpace_unat:
  "isWhiteSpace c \<longleftrightarrow> unat c \<in> {9, 10, 11, 12, 13, 32, 160, 5760, 8232, 8233, 8239, 8287, 12288, 65279}
      \<or> (8192 \<le> unat c \<and> unat c \<le> 8202)"
  unfolding isWhiteSpace_def word_le_nat_alt
  by (auto simp: word_unat_eq_iff)

lemma upper_unat: "0x41 \<le> c \<Longrightarrow> c \<le> 0x5A \<Longrightarrow> 65 \<le> unat c \<and> unat c \<le> 90" for c :: code_unit
  by (simp add: word_le_nat_alt)

lemma lower_unat: "0x41 \<le> c \<Longrightarrow> c \<le> 0x5A \<Longrightarrow> unat (c + 0x20) = unat c + 32" for c :: code_unit
proof -
  assume a: "0x41 \<le> c" "c \<le> 0x5A"
  then have "unat c + unat (0x20 :: code_unit) < 2 ^ LENGTH(16)" using upper_unat[OF a] by simp
  then have "unat (c + 0x20) = unat c + unat (0x20 :: code_unit)" by (simp only: unat_add_lem)
  then show ?thesis by simp
qed

lemma isWhiteSpace_toLowerUnit [simp]: "isWhiteSpace (toLowerUnit c) = isWhiteSpace c"
proof (cases "0x41 \<le> c \<and> c \<le> 0x5A")
  case True
  then have u: "65 \<le> unat c \<and> unat c \<le> 90" and l: "unat (c + 0x20) = unat c + 32"
    using upper_unat lower_unat by auto
  have "\<not> isWhiteSpace c" using u unfolding isWhiteSpace_unat by auto
  moreover have "\<not> isWhiteSpace (c + 0x20)" using u l unfolding isWhiteSpace_unat by auto
  ultimately show ?thesis using True by (simp add: toLowerUnit_def)
next
  case False
  then show ?thesis by (auto simp add: toLowerUnit_def)
qed














lemma set_update_subset: "set (AList.update k v al) \<subseteq> insert (k, v) (set al)"
  by (induction al) auto

lemma map_of_fold_delete:
  "k \<notin> fst ` set ds \<Longrightarrow> map_of (fold (\<lambda>(key, e) c. AList.delete key c) ds al) k = map_of al k"
proof (induction ds arbitrary: al)
  case Nil
  then show ?case by simp
next
  case (Cons x ds)
  obtain k' e' where x: "x = (k', e')" by (cases x)
  have "map_of (AList.delete k' al) k = map_of al k" using Cons.prems x by (simp add: delete_conv')
  with Cons x show ?case by simp
qed

lemma cleanupOldEntries_keeps:
  assumes d: "distinct (map fst (cache w))"
    and m: "map_of (cache w) k = Some e"
    and newest: "\<forall>(k', e')\<in>set (cache w). k' \<noteq> k \<longrightarrow> timestamp e' < timestamp e"
  shows "map_of (cache (cleanupOldEntries w)) k = Some e"
proof (cases "length (cache w) > MAX_CACHE_SIZE")
  case False
  then show ?thesis using m by (simp add: cleanupOldEntries_def)
next
  case True
  define c where "c = cache w"
  define f where "f = (\<lambda>(key :: jsstring, e :: CacheEntry). timestamp e)"
  define sorted_entries where "sorted_entries = sort_key f c"
  define n where "n = length c - MAX_CACHE_SIZE + 100"
  have res: "cache (cleanupOldEntries w) = fold (\<lambda>(key, e) c. AList.delete key c) (take n sorted_entries) c"
    using True by (simp add: cleanupOldEntries_def Let_def c_def f_def sorted_entries_def n_def)
  have len: "length sorted_entries = length c" by (simp add: sorted_entries_def)
  have n: "n < length c" using True by (simp add: n_def c_def MAX_CACHE_SIZE_def)
  have dc: "distinct c" using d by (simp add: c_def distinct_map)
  have ds: "distinct sorted_entries" using dc by (simp add: sorted_entries_def)
  have ss: "sorted (map f sorted_entries)" by (simp add: sorted_entries_def)
  have sets: "set sorted_entries = set c" by (simp add: sorted_entries_def)
  have ke: "(k, e) \<in> set c" using m by (simp add: c_def map_of_SomeD)
  have uniq: "e' = e" if "(k, e') \<in> set c" for e'
    using that d m by (simp add: c_def)
  have "k \<notin> fst ` set (take n sorted_entries)"
  proof
    assume "k \<in> fst ` set (take n sorted_entries)"
    then obtain e' where in_take: "(k, e') \<in> set (take n sorted_entries)" by force
    then have "(k, e') \<in> set sorted_entries" by (rule in_set_takeD)
    then have "(k, e') \<in> set c" using sets by simp
    then have "e' = e" by (rule uniq)
    with in_take obtain i where i: "i < n" "i < length sorted_entries" "sorted_entries ! i = (k, e)"
      by (auto simp: in_set_conv_nth)
    let ?j = "length c - 1"
    have j: "?j < length sorted_entries" "i < ?j" using n i len by auto
    have le: "f (sorted_entries ! i) \<le> f (sorted_entries ! ?j)"
      using sorted_nth_mono[OF ss, of i ?j] j i(2) by simp
    obtain k2 e2 where last: "sorted_entries ! ?j = (k2, e2)" by (cases "sorted_entries ! ?j")
    have in_c: "(k2, e2) \<in> set c" using j(1) last sets nth_mem by metis
    show False
    proof (cases "k2 = k")
      case True
      then have "e2 = e" using in_c uniq by simp
      then have "sorted_entries ! i = sorted_entries ! ?j" using i(3) last True by simp
      then show False using ds j i(2) by (simp add: nth_eq_iff_index_eq)
    next
      case False
      then have "timestamp e2 < timestamp e" using newest in_c by (auto simp: c_def)
      then show False using le i(3) last by (simp add: f_def)
    qed
  qed
  then have "map_of (cache (cleanupOldEntries w)) k = map_of c k"
    unfolding res by (rule map_of_fold_delete)
  then show ?thesis using m by (simp add: c_def)
qed

lemma afterWrite_distinct:
  "distinct (map fst (cache w)) \<Longrightarrow> distinct (map fst (cache (afterWrite E request response w)))"
  by (simp add: afterWrite_def Let_def distinct_update distinct_map_filter)

lemma saveCache_keeps:
  assumes "distinct (map fst (cache w))" "map_of (cache w) k = Some e"
    and "\<forall>(k', e')\<in>set (cache w). k' \<noteq> k \<longrightarrow> timestamp e' < timestamp e"
  shows "map_of (cache (saveCache E w)) k = Some e"
proof (cases "setItemThrows E (setItemCalls w)")
  case False
  then show ?thesis using assms(2) by (simp add: saveCache_unfold)
next
  case True
  let ?w1 = "w\<lparr>setItemCalls := Suc (setItemCalls w)\<rparr>"
  have "map_of (cache (cleanupOldEntries ?w1)) k = Some e"
    by (rule cleanupOldEntries_keeps) (use assms in simp_all)
  then show ?thesis using True by (simp add: saveCache_unfold)
qed

lemma get_after_set_newest:
  assumes key: "generateCacheKey r2 = generateCacheKey r1"
    and mono: "mono (dateNow E)"
    and d: "distinct (map fst (cache w))"
    and older: "\<forall>(k', e')\<in>set (cache w). k' \<noteq> generateCacheKey r1 \<longrightarrow> timestamp e' < dateNow E (nowCalls w)"
    and fresh: "dateNow E (nowCalls (cacheSet E r1 resp w)) \<le> expiresAt (newEntry E resp w)"
  shows "fst (cacheGet E r2 (cacheSet E r1 resp w)) =
           Some \<lparr>translatedText = translatedText resp, sourceLanguage = req_from r2, targetLanguage = req_to r2\<rparr>"
proof -
  let ?w' = "cacheSet E r1 resp w" and ?a = "afterWrite E r1 resp w"
  let ?k = "generateCacheKey r1" and ?e = "newEntry E resp w"
  have n: "nowCalls ?w' = nowCalls ?a" by (simp add: cacheSet_unfold)
  have "Suc (nowCalls w) \<le> nowCalls ?w'" using afterWrite_simps(3) n by simp
  then have "dateNow E (Suc (nowCalls w)) \<le> dateNow E (nowCalls ?w')" using mono by (simp add: monoD)
  with fresh have live: "dateNow E (Suc (nowCalls w)) \<le> expiresAt ?e" by simp
  have la: "map_of (cache ?a) ?k = Some ?e" by (rule afterWrite_lookup[OF live])
  have da: "distinct (map fst (cache ?a))" using d by (rule afterWrite_distinct)
  have sub: "set (cache ?a) \<subseteq> insert (?k, ?e) (set (cache w))"
    using afterWrite_simps(4)[of E r1 resp w] set_update_subset[of ?k ?e "cache w"] by blast
  have oa: "\<forall>(k', e')\<in>set (cache ?a). k' \<noteq> ?k \<longrightarrow> timestamp e' < timestamp ?e"
    using sub older by (auto simp: newEntry_def)
  have "map_of (cache ?w') ?k = Some ?e"
    unfolding cacheSet_unfold by (rule saveCache_keeps[OF da la oa])
  then show ?thesis using fresh key by (simp add: cacheGet_def Let_def newEntry_def)
qed

lemma fold_delete_filter:
  "fold (\<lambda>(key, e) c. AList.delete key c) ds al = filter (\<lambda>(k, v). k \<notin> fst ` set ds) al"
proof (induction ds arbitrary: al)
  case Nil
  then show ?case by simp
next
  case (Cons x ds)
  obtain k' e' where x: "x = (k', e')" by (cases x)
  have "filter (\<lambda>(k, v). k \<notin> fst ` set ds) (AList.delete k' al)
      = filter (\<lambda>(k, v). k \<notin> fst ` set (x # ds)) al"
    unfolding x AList.delete_eq by (induction al) auto
  with Cons x show ?case by simp
qed

lemma length_filter_keys:
  assumes "distinct (map fst al)" "distinct (map fst ds)" "set ds \<subseteq> set al"
  shows "length (filter (\<lambda>(k, v). k \<notin> fst ` set ds) al) = length al - length ds"
proof -
  let ?D = "fst ` set ds"
  let ?in = "filter (\<lambda>(k, v). k \<in> ?D) al"
  have "distinct (map fst ?in)" using assms(1) by (simp add: distinct_map_filter)
  moreover have "set (map fst ?in) = ?D" using assms(3) by force
  ultimately have "length (map fst ?in) = card ?D" by (metis distinct_card)
  moreover have "card ?D = length ds" using assms(2) by (metis distinct_card length_map set_map)
  ultimately have i: "length ?in = length ds" by simp
  have "length ?in + length (filter (\<lambda>x. \<not> (case x of (k, v) \<Rightarrow> k \<in> ?D)) al) = length al"
    by (rule sum_length_filter_compl)
  moreover have "filter (\<lambda>x. \<not> (case x of (k, v) \<Rightarrow> k \<in> ?D)) al = filter (\<lambda>(k, v). k \<notin> ?D) al"
    by (rule filter_cong) auto
  ultimately show ?thesis using i by simp
qed

lemma cleanupOldEntries_size:
  assumes "distinct (map fst (cache w))" "length (cache w) > MAX_CACHE_SIZE"
  shows "length (cache (cleanupOldEntries w)) = MAX_CACHE_SIZE - 100"
proof -
  define c where "c = cache w"
  define sorted_entries where "sorted_entries = sort_key (\<lambda>(key :: jsstring, e :: CacheEntry). timestamp e) c"
  define n where "n = length c - MAX_CACHE_SIZE + 100"
  have res: "cache (cleanupOldEntries w) = fold (\<lambda>(key, e) c. AList.delete key c) (take n sorted_entries) c"
    using assms(2) by (simp add: cleanupOldEntries_def Let_def c_def sorted_entries_def n_def)
  have "distinct c \<and> inj_on fst (set c)" using assms(1) by (simp add: c_def distinct_map)
  then have "distinct (map fst sorted_entries)" by (simp add: sorted_entries_def distinct_map)
  then have d: "distinct (map fst (take n sorted_entries))" by (simp add: take_map[symmetric] distinct_take)
  have s: "set (take n sorted_entries) \<subseteq> set c"
    using set_take_subset[of n sorted_entries] by (simp add: sorted_entries_def)
  have "length (take n sorted_entries) = n" using assms(2) by (simp add: sorted_entries_def n_def c_def MAX_CACHE_SIZE_def)
  then have "length (cache (cleanupOldEntries w)) = length c - n"
    using length_filter_keys[OF _ d s] assms(1) by (simp add: res fold_delete_filter c_def)
  then show ?thesis using assms(2) by (simp add: n_def c_def MAX_CACHE_SIZE_def)
qed

lemma expiry_newEntry:
  "dateNow E (nowCalls w) + numOr (cacheExpiration (getAIConfig E)) (24 * 60 * 60 * 1000)
     = expiresAt (newEntry E response w)"
  by (simp add: newEntry_def)

text \<open>
  Claim C4 (as amended). The cache stores only the translated text, so what \<open>get\<close> returns
  after \<open>set(request, response)\<close> carries the stored \<open>translatedText\<close> and the request's own
  \<open>from\<close> and \<open>to\<close> as source and target language; it equals the stored response exactly when
  the response's languages are the request's. This holds while the clock reading of \<open>get\<close> is
  not past \<open>expiresAt\<close>, for a store with distinct keys, a clock that does not run backwards,
  and a \<open>set\<close> that keeps its entry: its storage write succeeds, or the store is below
  capacity, or every other entry is older than the one written (then the eviction pass
  spares it). Once \<open>expiresAt\<close> has passed, \<open>get\<close> returns nothing and the key is not in the
  store.
\<close>

theorem cache_round_trip:
  assumes "mono (dateNow E)"
    and "distinct (map fst (cache w))"
    and "\<not> setItemThrows E (setItemCalls w) \<or> length (cache w) < MAX_CACHE_SIZE
         \<or> (\<forall>(key, e)\<in>set (cache w). key \<noteq> generateCacheKey request
               \<longrightarrow> timestamp e < dateNow E (nowCalls w))"
  shows "let w' = cacheSet E request response w;
             expiry = dateNow E (nowCalls w) + numOr (cacheExpiration (getAIConfig E)) (24 * 60 * 60 * 1000);
             now = dateNow E (nowCalls w')
         in (now \<le> expiry \<longrightarrow>
               fst (cacheGet E request w') =
                 Some \<lparr>translatedText = translatedText response,
                       sourceLanguage = req_from request,
                       targetLanguage = req_to request\<rparr>)
          \<and> (now \<le> expiry \<and> sourceLanguage response = req_from request
                \<and> targetLanguage response = req_to request \<longrightarrow>
               fst (cacheGet E request w') = Some response)
          \<and> (expiry < now \<longrightarrow>
               fst (cacheGet E request w') = None
               \<and> map_of (cache (snd (cacheGet E request w'))) (generateCacheKey request) = None)"
proof -
  let ?w' = "cacheSet E request response w"
  let ?x = "expiresAt (newEntry E response w)"
  let ?n = "dateNow E (nowCalls ?w')"
  have hit: "fst (cacheGet E request ?w') =
      Some \<lparr>translatedText = translatedText response, sourceLanguage = req_from request,
            targetLanguage = req_to request\<rparr>" if live: "?n \<le> ?x"
  proof (cases "\<not> setItemThrows E (setItemCalls w) \<or> length (cache w) < MAX_CACHE_SIZE")
    case True
    then show ?thesis by (rule get_after_set[OF refl assms(1) _ live])
  next
    case False
    with assms(3) have "\<forall>(key, e)\<in>set (cache w). key \<noteq> generateCacheKey request
        \<longrightarrow> timestamp e < dateNow E (nowCalls w)"
      by blast
    then show ?thesis by (rule get_after_set_newest[OF refl assms(1,2) _ live])
  qed
  have same: "fst (cacheGet E request ?w') = Some response"
    if "?n \<le> ?x" "sourceLanguage response = req_from request" "targetLanguage response = req_to request"
    using hit[OF that(1)] that(2,3) by simp
  have gone: "fst (cacheGet E request ?w') = None
      \<and> map_of (cache (snd (cacheGet E request ?w'))) (generateCacheKey request) = None" if "?x < ?n"
    using get_expired[OF assms(2) that] .
  show ?thesis
    unfolding Let_def expiry_newEntry[of E w response] using hit same gone by blast
qed

lemma quiet_mono: "mono (dateNow quietEnv)"
  by (simp add: quietEnv_def mono_def)

lemma saveRequest_key: "generateCacheKey saveRequest = ascii ''auto-zh-save-''"
  by (simp add: generateCacheKey_def saveRequest_def ascii_def trim_def toLowerCase_def
      toLowerUnit_def isWhiteSpace_def strOr_def)

theorem cache_round_trip_witness:
  "mono (dateNow quietEnv)
   \<and> \<not> setItemThrows quietEnv (setItemCalls emptyWorld)
   \<and> distinct (map fst (cache emptyWorld))
   \<and> fst (cacheGet quietEnv saveRequest (cacheSet quietEnv saveRequest saveResponse emptyWorld))
       = Some \<lparr>translatedText = [0x4FDD, 0x5B58], sourceLanguage = ascii ''auto'',
               targetLanguage = ascii ''zh''\<rparr>"
proof -
  have q: "\<not> setItemThrows quietEnv (setItemCalls emptyWorld)" by (simp add: quietEnv_def)
  then have h2: "\<not> setItemThrows quietEnv (setItemCalls emptyWorld)
      \<or> length (cache emptyWorld) < MAX_CACHE_SIZE
      \<or> (\<forall>(key, e)\<in>set (cache emptyWorld). key \<noteq> generateCacheKey saveRequest
            \<longrightarrow> timestamp e < dateNow quietEnv (nowCalls emptyWorld))"
    by simp
  have h3: "distinct (map fst (cache emptyWorld))" by (simp add: emptyWorld_def)
  have n: "nowCalls (cacheSet quietEnv saveRequest saveResponse emptyWorld) = 1"
    by (simp add: cacheSet_unfold afterWrite_def quietEnv_def emptyWorld_def)
  have t: "dateNow quietEnv 1 \<le> dateNow quietEnv (nowCalls emptyWorld)
      + numOr (cacheExpiration (getAIConfig quietEnv)) (24 * 60 * 60 * 1000)"
    by (simp add: quietEnv_def emptyWorld_def getAIConfig_def DEFAULT_AI_CONFIG_def numOr_def)
  from cache_round_trip[OF quiet_mono h3 h2, of saveResponse] n t
  have "fst (cacheGet quietEnv saveRequest (cacheSet quietEnv saveRequest saveResponse emptyWorld))
      = Some \<lparr>translatedText = translatedText saveResponse, sourceLanguage = req_from saveRequest,
              targetLanguage = req_to saveRequest\<rparr>"
    by (simp add: Let_def)
  then show ?thesis
    using q h3 quiet_mono by (simp add: saveRequest_def saveResponse_def)
qed

text \<open>
  The claim as stated fails: \<open>set\<close> with a request from \<open>auto\<close> and a response whose source
  language is \<open>en\<close>, then \<open>get\<close> before \<open>expiresAt\<close>: the result is not the stored response.
\<close>

theorem cache_round_trip_counterexample:
  "dateNow quietEnv (nowCalls (cacheSet quietEnv saveRequest saveResponse emptyWorld))
     \<le> dateNow quietEnv (nowCalls emptyWorld)
        + numOr (cacheExpiration (getAIConfig quietEnv)) (24 * 60 * 60 * 1000)
   \<and> fst (cacheGet quietEnv saveRequest (cacheSet quietEnv saveRequest saveResponse emptyWorld))
       \<noteq> Some saveResponse"
proof -
  have h2: "\<not> setItemThrows quietEnv (setItemCalls emptyWorld) \<or> length (cache emptyWorld) < MAX_CACHE_SIZE"
    by (simp add: quietEnv_def)
  have n: "nowCalls (cacheSet quietEnv saveRequest saveResponse emptyWorld) = 1"
    by (simp add: cacheSet_unfold afterWrite_def quietEnv_def emptyWorld_def)
  have t: "dateNow quietEnv 1 \<le> expiresAt (newEntry quietEnv saveResponse emptyWorld)"
    by (simp add: newEntry_def quietEnv_def emptyWorld_def getAIConfig_def DEFAULT_AI_CONFIG_def numOr_def)
  have "fst (cacheGet quietEnv saveRequest (cacheSet quietEnv saveRequest saveResponse emptyWorld))
      = Some \<lparr>translatedText = translatedText saveResponse, sourceLanguage = req_from saveRequest,
              targetLanguage = req_to saveRequest\<rparr>"
    using get_after_set[OF refl quiet_mono h2] n t by simp
  moreover have "\<lparr>translatedText = translatedText saveResponse, sourceLanguage = req_from saveRequest,
              targetLanguage = req_to saveRequest\<rparr> \<noteq> saveResponse"
    by (simp add: saveResponse_def saveRequest_def ascii_def)
  ultimately show ?thesis using n t by (simp add: newEntry_def)
qed



lemma underscore_example: "differOnlyInCaseOrSpacing (ascii ''a b'') (ascii ''a_b'')"
  using underscore[of "ascii '' ''" "ascii ''a''" "ascii ''b''"]
  by (simp add: ascii_def isWhiteSpace_def)

lemma cacheTextsNonEmpty_subset: "cacheTextsNonEmpty c \<Longrightarrow> set d \<subseteq> set c \<Longrightarrow> cacheTextsNonEmpty d"
  by (auto simp: cacheTextsNonEmpty_def)

lemma callProvider_cache [simp]: "cache (snd (callProvider name trimmed rq E request w)) = cache w"
  by (simp add: callProvider_def Let_def split: fetch_result.splits response_body.splits option.splits)

lemma callProvider_nonempty:
  "callProvider name trimmed rq E request w = (Inr x, w') \<Longrightarrow> translatedText x \<noteq> []"
  by (auto simp: callProvider_def Let_def split: fetch_result.splits response_body.splits option.splits if_splits)

lemma performTranslation_cache [simp]: "cache (snd (performTranslation E config request w)) = cache w"
  by (simp add: performTranslation_def translateWithOpenAI_def translateWithClaude_def
      translateWithGoogle_def translateWithDeepL_def Let_def)

lemma performTranslation_nonempty:
  "performTranslation E config request w = (Inr x, w') \<Longrightarrow> translatedText x \<noteq> []"
  by (auto simp: performTranslation_def translateWithOpenAI_def translateWithClaude_def
      translateWithGoogle_def translateWithDeepL_def Let_def dest: callProvider_nonempty split: if_splits)

lemma cacheGet_subset: "set (cache (snd (cacheGet E request w))) \<subseteq> set (cache w)"
proof -
  have "set (cache (saveCache E (w\<lparr>nowCalls := Suc (nowCalls w), cache := AList.delete k (cache w)\<rparr>))) \<subseteq> set (cache w)" for k
    using saveCache_subset[of E "w\<lparr>nowCalls := Suc (nowCalls w), cache := AList.delete k (cache w)\<rparr>"]
    by (auto simp: AList.delete_eq)
  then show ?thesis
    by (auto simp: cacheGet_def Let_def split: option.splits)
qed

lemma cacheGet_nonempty:
  "cacheTextsNonEmpty (cache w) \<Longrightarrow> cacheGet E request w = (Some x, w') \<Longrightarrow> translatedText x \<noteq> []"
  by (auto simp: cacheGet_def Let_def cacheTextsNonEmpty_def split: option.splits if_splits dest!: map_of_SomeD)

lemma cacheSet_nonempty:
  assumes "cacheTextsNonEmpty (cache w)" "translatedText response \<noteq> []"
  shows "cacheTextsNonEmpty (cache (cacheSet E request response w))"
proof -
  have "set (cache (cacheSet E request response w))
      \<subseteq> insert (generateCacheKey request, newEntry E response w) (set (cache w))"
    using saveCache_subset[of E "afterWrite E request response w"] afterWrite_simps(4)[of E request response w]
      set_update_subset[of "generateCacheKey request" "newEntry E response w" "cache w"]
    unfolding cacheSet_unfold by blast
  then show ?thesis using assms by (auto simp: cacheTextsNonEmpty_def newEntry_def)
qed

lemma translate_nonempty:
  assumes "cacheTextsNonEmpty (cache w)"
  shows "cacheTextsNonEmpty (cache (snd (translate E config request w)))
       \<and> (\<forall>x. fst (translate E config request w) = Inr x \<longrightarrow> translatedText x \<noteq> [])"
proof (cases "cacheGet E request w")
  case (Pair hit w1)
  have inv1: "cacheTextsNonEmpty (cache w1)"
    using cacheTextsNonEmpty_subset[OF assms] cacheGet_subset[of E request w] Pair by simp
  show ?thesis
  proof (cases hit)
    case (Some cached)
    then show ?thesis using Pair inv1 cacheGet_nonempty[OF assms, of E request cached w1]
      by (simp add: translate_def)
  next
    case None
    obtain outcome w2 where p: "performTranslation E config request w1 = (outcome, w2)"
      by (cases "performTranslation E config request w1")
    have c2: "cache w2 = cache w1" using performTranslation_cache[of E config request w1] p by simp
    show ?thesis
    proof (cases outcome)
      case (Inl error)
      then show ?thesis using Pair None p inv1 c2 by (simp add: translate_def)
    next
      case (Inr response)
      then have "translatedText response \<noteq> []" using performTranslation_nonempty p by blast
      then show ?thesis using Pair None p Inr inv1 c2 cacheSet_nonempty[of w2 response E request]
        by (simp add: translate_def)
    qed
  qed
qed

lemma translateBatch_Cons:
  "translateBatch E config (request # rest) w =
     ((case fst (translate E config request w) of Inr r \<Rightarrow> r | Inl error \<Rightarrow> fallbackResult request)
        # fst (translateBatch E config rest (snd (translate E config request w))),
      snd (translateBatch E config rest (snd (translate E config request w))))"
  by (simp add: fallbackResult_def split: prod.splits sum.splits)

lemma translateBatch_length: "length (fst (translateBatch E config reqs w)) = length reqs"
  by (induction reqs arbitrary: w) (simp_all add: translateBatch_Cons del: translateBatch.simps(2))

lemma translateBatch_nth:
  "i < length reqs \<Longrightarrow>
   fst (translateBatch E config reqs w) ! i =
     (case fst (translate E config (reqs ! i) (snd (translateBatch E config (take i reqs) w))) of
        Inr r \<Rightarrow> r
      | Inl error \<Rightarrow> fallbackResult (reqs ! i))"
proof (induction reqs arbitrary: w i)
  case Nil
  then show ?case by simp
next
  case (Cons request rest)
  show ?case
  proof (cases i)
    case 0
    then show ?thesis by (simp add: translateBatch_Cons del: translateBatch.simps(2) cong: sum.case_cong)
  next
    case (Suc j)
    then have "j < length rest" using Cons.prems by simp
    from Cons.IH[OF this] Suc show ?thesis
      by (simp add: translateBatch_Cons del: translateBatch.simps(2) cong: sum.case_cong)
  qed
qed

lemma translateBatch_nonempty:
  assumes "cacheTextsNonEmpty (cache w)" "\<forall>request\<in>set reqs. req_text request \<noteq> []"
  shows "cacheTextsNonEmpty (cache (snd (translateBatch E config reqs w)))
       \<and> (\<forall>x\<in>set (fst (translateBatch E config reqs w)). translatedText x \<noteq> [])"
  using assms
proof (induction reqs arbitrary: w)
  case Nil
  then show ?case by simp
next
  case (Cons request rest)
  obtain outcome w1 where t: "translate E config request w = (outcome, w1)"
    by (cases "translate E config request w")
  have inv1: "cacheTextsNonEmpty (cache w1)"
    and ne: "\<forall>x. outcome = Inr x \<longrightarrow> translatedText x \<noteq> []"
    using translate_nonempty[OF Cons.prems(1), of E config request] t by simp_all
  have rest: "cacheTextsNonEmpty (cache (snd (translateBatch E config rest w1)))
       \<and> (\<forall>x\<in>set (fst (translateBatch E config rest w1)). translatedText x \<noteq> [])"
    using Cons.IH[OF inv1] Cons.prems(2) by simp
  show ?case using t ne rest Cons.prems(2)
    by (cases outcome) (auto simp: translateBatch_Cons fallbackResult_def simp del: translateBatch.simps(2))
qed

text \<open>
  Claim C1. \<open>translateBatch\<close> returns one result per request, in the order of the requests:
  the \<open>i\<close>-th result is what \<open>translate\<close> returns for the \<open>i\<close>-th request in the state
  the earlier items left, and where that call throws it is the request's own text with the
  request's source and target languages. The batch always returns (its result is a plain
  list). Every result text is non-empty when the request texts are, for a cache that holds
  no empty translation, which the batch preserves (the cache is only written with provider
  results, and the variants refuse an empty one).
\<close>

theorem translateBatch_fallback:
  "length (fst (translateBatch E config reqs w)) = length reqs
   \<and> (\<forall>i<length reqs.
         fst (translateBatch E config reqs w) ! i =
           (case fst (translate E config (reqs ! i) (snd (translateBatch E config (take i reqs) w))) of
              Inr r \<Rightarrow> r
            | Inl error \<Rightarrow> \<lparr>translatedText = req_text (reqs ! i),
                            sourceLanguage = req_from (reqs ! i),
                            targetLanguage = req_to (reqs ! i)\<rparr>))
   \<and> (cacheTextsNonEmpty (cache w) \<and> (\<forall>request\<in>set reqs. req_text request \<noteq> [])
        \<longrightarrow> (\<forall>x\<in>set (fst (translateBatch E config reqs w)). translatedText x \<noteq> [])
            \<and> cacheTextsNonEmpty (cache (snd (translateBatch E config reqs w))))"
  using translateBatch_length[of E config reqs w] translateBatch_nth[of _ reqs E config w]
    translateBatch_nonempty[of w reqs E config]
  unfolding fallbackResult_def by blast

lemmas eval_defs = translate_def cacheGet_def cacheSet_def performTranslation_def translateWithOpenAI_def
  callProvider_def saveCache_def setItem_def generateCacheKey_def flakyEnv_def emptyWorld_def
  getAIConfig_def timeoutInRange_def DEFAULT_AI_CONFIG_def textRequest_def threeRequests_def translatedReply_def
  ascii_def trim_def toLowerCase_def toLowerUnit_def isWhiteSpace_def strOr_def numOr_def Let_def

lemma three_results:
  "fst (translateBatch flakyEnv DEFAULT_AI_CONFIG threeRequests emptyWorld) =
     [\<lparr>translatedText = [0x597D], sourceLanguage = ascii ''en'', targetLanguage = ascii ''zh''\<rparr>,
      \<lparr>translatedText = ascii ''b'', sourceLanguage = ascii ''en'', targetLanguage = ascii ''zh''\<rparr>,
      \<lparr>translatedText = [0x597D], sourceLanguage = ascii ''en'', targetLanguage = ascii ''zh''\<rparr>]"
  by (simp add: eval_defs)

theorem translateBatch_fallback_witness:
  "fst (translate flakyEnv DEFAULT_AI_CONFIG (threeRequests ! 1)
          (snd (translateBatch flakyEnv DEFAULT_AI_CONFIG (take 1 threeRequests) emptyWorld)))
       = Inl (TranslationFailed FetchRejected)
   \<and> length (fst (translateBatch flakyEnv DEFAULT_AI_CONFIG threeRequests emptyWorld)) = 3
   \<and> fst (translateBatch flakyEnv DEFAULT_AI_CONFIG threeRequests emptyWorld) ! 1
       = \<lparr>translatedText = ascii ''b'', sourceLanguage = ascii ''en'', targetLanguage = ascii ''zh''\<rparr>
   \<and> translatedText (fst (translateBatch flakyEnv DEFAULT_AI_CONFIG threeRequests emptyWorld) ! 0) \<noteq> []
   \<and> translatedText (fst (translateBatch flakyEnv DEFAULT_AI_CONFIG threeRequests emptyWorld) ! 1) \<noteq> []
   \<and> translatedText (fst (translateBatch flakyEnv DEFAULT_AI_CONFIG threeRequests emptyWorld) ! 2) \<noteq> []"
proof -
  let ?out = "fst (translateBatch flakyEnv DEFAULT_AI_CONFIG threeRequests emptyWorld)"
  have h1: "cacheTextsNonEmpty (cache emptyWorld)"
    by (simp add: cacheTextsNonEmpty_def emptyWorld_def)
  have h2: "\<forall>request\<in>set threeRequests. req_text request \<noteq> []"
    by (simp add: threeRequests_def textRequest_def ascii_def)
  have h3: "(1::nat) < length threeRequests" by (simp add: threeRequests_def)
  have f: "fst (translate flakyEnv DEFAULT_AI_CONFIG (threeRequests ! 1)
          (snd (translateBatch flakyEnv DEFAULT_AI_CONFIG (take 1 threeRequests) emptyWorld)))
       = Inl (TranslationFailed FetchRejected)"
    by (simp add: eval_defs)
  note t = translateBatch_fallback[of flakyEnv DEFAULT_AI_CONFIG threeRequests emptyWorld]
  have l: "length ?out = 3" using t by (simp add: threeRequests_def)
  have "?out ! 1 = \<lparr>translatedText = req_text (threeRequests ! 1),
      sourceLanguage = req_from (threeRequests ! 1), targetLanguage = req_to (threeRequests ! 1)\<rparr>"
    using t h3 f by simp
  then have n: "?out ! 1 = \<lparr>translatedText = ascii ''b'', sourceLanguage = ascii ''en'',
      targetLanguage = ascii ''zh''\<rparr>"
    by (simp add: threeRequests_def textRequest_def)
  have a: "\<forall>x\<in>set ?out. translatedText x \<noteq> []" using t h1 h2 by blast
  have "?out ! 0 \<in> set ?out" "?out ! 1 \<in> set ?out" "?out ! 2 \<in> set ?out"
    using l by simp_all
  then show ?thesis using f l n a by blast
qed

lemma cacheGet_requests [simp]: "requests (snd (cacheGet E request w)) = requests w"
  by (simp add: cacheGet_def Let_def split: option.splits)

lemma callProvider_requests [simp]:
  "requests (snd (callProvider name trimmed rq E request w)) = requests w @ [rq]"
  by (simp add: callProvider_def Let_def split: fetch_result.splits response_body.splits option.splits)

lemma translate_requests_unsupported:
  assumes "performTranslation E config request (snd (cacheGet E request w))
            = (Inl (UnsupportedProvider (provider config)), snd (cacheGet E request w))"
  shows "requests (snd (translate E config request w)) = requests w
       \<and> (fst (cacheGet E request w) = None \<longrightarrow>
            fst (translate E config request w) = Inl (TranslationFailed (UnsupportedProvider (provider config))))
       \<and> (\<forall>cached. fst (cacheGet E request w) = Some cached \<longrightarrow>
            fst (translate E config request w) = Inr cached)"
proof (cases "cacheGet E request w")
  case (Pair hit w1)
  have "requests w1 = requests w" using cacheGet_requests[of E request w] Pair by simp
  then show ?thesis using Pair assms by (cases hit) (simp_all add: translate_def)
qed

lemma getAIConfig_default: "storedConfig E = None \<Longrightarrow> newAITranslator E noOverrides = DEFAULT_AI_CONFIG"
  by (simp add: newAITranslator_def getAIConfig_def spread_def noOverrides_def)

text \<open>
  Claim C7 (as amended). For a provider name that is none of \<open>openai\<close>, \<open>claude\<close>, \<open>google\<close>,
  \<open>deepl\<close>, the dispatch \<open>performTranslation\<close> raises the unsupported-provider error with the
  state unchanged; \<open>translate\<close> issues no network request, and raises that error (wrapped)
  when the cache has no answer, while a cached answer is returned without error. For a
  supported name the variant invoked is the one of that name, whatever else the
  configuration holds; it issues exactly its own kind of request, unless the configured
  timeout is out of range, in which case it fails before any request. When nothing is
  stored as configuration, the default instance has the configuration
  \<open>DEFAULT_AI_CONFIG\<close>, whose provider is \<open>openai\<close>.
\<close>

theorem provider_selection:
  "(provider config \<notin> {Some (ascii ''openai''), Some (ascii ''claude''), Some (ascii ''google''),
                         Some (ascii ''deepl'')} \<longrightarrow>
      performTranslation E config request w = (Inl (UnsupportedProvider (provider config)), w)
      \<and> requests (snd (translate E config request w)) = requests w
      \<and> (fst (cacheGet E request w) = None \<longrightarrow>
           fst (translate E config request w)
             = Inl (TranslationFailed (UnsupportedProvider (provider config))))
      \<and> (\<forall>cached. fst (cacheGet E request w) = Some cached \<longrightarrow>
           fst (translate E config request w) = Inr cached))
   \<and> (provider config = Some (ascii ''openai'') \<longrightarrow>
        performTranslation E config request w = translateWithOpenAI E config request w
        \<and> requests (snd (performTranslation E config request w)) =
            (if timeoutInRange (numOr (timeout config) 10000)
             then requests w @
               [OpenAIRequest (apiKey config) (strOr (model config) (ascii ''gpt-3.5-turbo''))
                  (numOr (timeout config) 10000) request]
             else requests w))
   \<and> (provider config = Some (ascii ''claude'') \<longrightarrow>
        performTranslation E config request w = translateWithClaude E config request w
        \<and> requests (snd (performTranslation E config request w)) =
            (if timeoutInRange (numOr (timeout config) 10000)
             then requests w @
               [ClaudeRequest (apiKey config) (strOr (model config) (ascii ''claude-3-haiku-20240307''))
                  (numOr (timeout config) 10000) request]
             else requests w))
   \<and> (provider config = Some (ascii ''google'') \<longrightarrow>
        performTranslation E config request w = translateWithGoogle E config request w
        \<and> requests (snd (performTranslation E config request w)) =
            (if timeoutInRange (numOr (timeout config) 10000)
             then requests w @ [GoogleRequest (apiKey config) (numOr (timeout config) 10000) request]
             else requests w))
   \<and> (provider config = Some (ascii ''deepl'') \<longrightarrow>
        performTranslation E config request w = translateWithDeepL E config request w
        \<and> requests (snd (performTranslation E config request w)) =
            (if timeoutInRange (numOr (timeout config) 10000)
             then requests w @
               [DeepLRequest (strOr (endpoint config) (ascii ''https://api-free.deepl.com/v2/translate''))
                  (apiKey config) (numOr (timeout config) 10000) request]
             else requests w))
   \<and> (storedConfig E = None \<longrightarrow>
        newAITranslator E noOverrides = DEFAULT_AI_CONFIG
        \<and> provider (newAITranslator E noOverrides) = Some (ascii ''openai''))"
proof -
  have un: "performTranslation E config request v = (Inl (UnsupportedProvider (provider config)), v)"
    if "provider config \<notin> {Some (ascii ''openai''), Some (ascii ''claude''), Some (ascii ''google''),
                         Some (ascii ''deepl'')}" for v
    using that by (simp add: performTranslation_def)
  have ne: "ascii ''claude'' \<noteq> ascii ''openai''" "ascii ''google'' \<noteq> ascii ''openai''"
    "ascii ''deepl'' \<noteq> ascii ''openai''" "ascii ''google'' \<noteq> ascii ''claude''"
    "ascii ''deepl'' \<noteq> ascii ''claude''" "ascii ''deepl'' \<noteq> ascii ''google''"
    by (simp_all add: ascii_def)
  have one: "provider config \<notin> {Some (ascii ''openai''), Some (ascii ''claude''), Some (ascii ''google''),
                         Some (ascii ''deepl'')} \<longrightarrow>
      performTranslation E config request w = (Inl (UnsupportedProvider (provider config)), w)
      \<and> requests (snd (translate E config request w)) = requests w
      \<and> (fst (cacheGet E request w) = None \<longrightarrow>
           fst (translate E config request w)
             = Inl (TranslationFailed (UnsupportedProvider (provider config))))
      \<and> (\<forall>cached. fst (cacheGet E request w) = Some cached \<longrightarrow>
           fst (translate E config request w) = Inr cached)"
    using un translate_requests_unsupported[of E config request w] by blast
  have two: "provider config = Some (ascii ''openai'') \<longrightarrow>
        performTranslation E config request w = translateWithOpenAI E config request w
        \<and> requests (snd (performTranslation E config request w)) =
            (if timeoutInRange (numOr (timeout config) 10000)
             then requests w @
               [OpenAIRequest (apiKey config) (strOr (model config) (ascii ''gpt-3.5-turbo''))
                  (numOr (timeout config) 10000) request]
             else requests w)"
    by (simp add: performTranslation_def translateWithOpenAI_def Let_def)
  have three: "provider config = Some (ascii ''claude'') \<longrightarrow>
        performTranslation E config request w = translateWithClaude E config request w
        \<and> requests (snd (performTranslation E config request w)) =
            (if timeoutInRange (numOr (timeout config) 10000)
             then requests w @
               [ClaudeRequest (apiKey config) (strOr (model config) (ascii ''claude-3-haiku-20240307''))
                  (numOr (timeout config) 10000) request]
             else requests w)"
    using ne by (simp add: performTranslation_def translateWithClaude_def Let_def)
  have four: "provider config = Some (ascii ''google'') \<longrightarrow>
        performTranslation E config request w = translateWithGoogle E config request w
        \<and> requests (snd (performTranslation E config request w)) =
            (if timeoutInRange (numOr (timeout config) 10000)
             then requests w @ [GoogleRequest (apiKey config) (numOr (timeout config) 10000) request]
             else requests w)"
    using ne by (simp add: performTranslation_def translateWithGoogle_def Let_def)
  have five: "provider config = Some (ascii ''deepl'') \<longrightarrow>
        performTranslation E config request w = translateWithDeepL E config request w
        \<and> requests (snd (performTranslation E config request w)) =
            (if timeoutInRange (numOr (timeout config) 10000)
             then requests w @
               [DeepLRequest (strOr (endpoint config) (ascii ''https://api-free.deepl.com/v2/translate''))
                  (apiKey config) (numOr (timeout config) 10000) request]
             else requests w)"
    using ne by (simp add: performTranslation_def translateWithDeepL_def Let_def)
  have six: "storedConfig E = None \<longrightarrow>
        newAITranslator E noOverrides = DEFAULT_AI_CONFIG
        \<and> provider (newAITranslator E noOverrides) = Some (ascii ''openai'')"
    by (simp add: getAIConfig_default) (simp add: DEFAULT_AI_CONFIG_def)
  show ?thesis using one two three four five six by blast
qed

lemma quiet_get_after_set:
  "cacheGet quietEnv saveRequest (cacheSet quietEnv saveRequest saveResponse emptyWorld) =
     (Some \<lparr>translatedText = [0x4FDD, 0x5B58], sourceLanguage = ascii ''auto'',
            targetLanguage = ascii ''zh''\<rparr>,
      (cacheSet quietEnv saveRequest saveResponse emptyWorld)\<lparr>nowCalls := 2\<rparr>)"
  by (simp add: cacheGet_def cacheSet_unfold afterWrite_def saveCache_unfold newEntry_def quietEnv_def
      emptyWorld_def getAIConfig_def DEFAULT_AI_CONFIG_def numOr_def saveRequest_def saveResponse_def
      update_conv' Let_def)

theorem provider_selection_witness:
  "performTranslation quietEnv nullProvider saveRequest emptyWorld
       = (Inl (UnsupportedProvider None), emptyWorld)
   \<and> fst (translate quietEnv nullProvider saveRequest emptyWorld)
       = Inl (TranslationFailed (UnsupportedProvider None))
   \<and> requests (snd (translate quietEnv nullProvider saveRequest emptyWorld)) = []
   \<and> fst (translate quietEnv nullProvider saveRequest
            (cacheSet quietEnv saveRequest saveResponse emptyWorld))
       = Inr \<lparr>translatedText = [0x4FDD, 0x5B58], sourceLanguage = ascii ''auto'',
              targetLanguage = ascii ''zh''\<rparr>
   \<and> requests (snd (performTranslation quietEnv DEFAULT_AI_CONFIG saveRequest emptyWorld))
       = [OpenAIRequest [] (ascii ''gpt-3.5-turbo'') 10000 saveRequest]
   \<and> requests (snd (performTranslation quietEnv negativeTimeout saveRequest emptyWorld)) = []
   \<and> newAITranslator quietEnv noOverrides = DEFAULT_AI_CONFIG"
proof -
  let ?hit = "cacheSet quietEnv saveRequest saveResponse emptyWorld"
  have p: "provider nullProvider = None" by (simp add: nullProvider_def)
  have n: "provider nullProvider \<notin> {Some (ascii ''openai''), Some (ascii ''claude''),
      Some (ascii ''google''), Some (ascii ''deepl'')}"
    using p by simp
  have m: "fst (cacheGet quietEnv saveRequest emptyWorld) = None"
    by (simp add: cacheGet_def emptyWorld_def)
  have h: "fst (cacheGet quietEnv saveRequest ?hit)
      = Some \<lparr>translatedText = [0x4FDD, 0x5B58], sourceLanguage = ascii ''auto'',
              targetLanguage = ascii ''zh''\<rparr>"
    by (simp add: quiet_get_after_set)
  have d: "provider DEFAULT_AI_CONFIG = Some (ascii ''openai'')"
    "provider negativeTimeout = Some (ascii ''openai'')"
    by (simp_all add: DEFAULT_AI_CONFIG_def negativeTimeout_def)
  have e: "requests emptyWorld = []" by (simp add: emptyWorld_def)
  have c: "apiKey DEFAULT_AI_CONFIG = []"
    "strOr (model DEFAULT_AI_CONFIG) (ascii ''gpt-3.5-turbo'') = ascii ''gpt-3.5-turbo''"
    "numOr (timeout DEFAULT_AI_CONFIG) 10000 = 10000" "timeoutInRange 10000"
    "\<not> timeoutInRange (numOr (timeout negativeTimeout) 10000)"
    by (simp_all add: DEFAULT_AI_CONFIG_def negativeTimeout_def strOr_def numOr_def ascii_def
        timeoutInRange_def)
  have s: "storedConfig quietEnv = None" by (simp add: quietEnv_def)
  from provider_selection[of nullProvider quietEnv saveRequest emptyWorld] n m
  have r1: "performTranslation quietEnv nullProvider saveRequest emptyWorld
        = (Inl (UnsupportedProvider (provider nullProvider)), emptyWorld)
      \<and> fst (translate quietEnv nullProvider saveRequest emptyWorld)
        = Inl (TranslationFailed (UnsupportedProvider (provider nullProvider)))
      \<and> requests (snd (translate quietEnv nullProvider saveRequest emptyWorld)) = requests emptyWorld"
    by blast
  from provider_selection[of nullProvider quietEnv saveRequest ?hit] n h
  have r2: "fst (translate quietEnv nullProvider saveRequest ?hit)
      = Inr \<lparr>translatedText = [0x4FDD, 0x5B58], sourceLanguage = ascii ''auto'',
              targetLanguage = ascii ''zh''\<rparr>"
    by blast
  from provider_selection[of DEFAULT_AI_CONFIG quietEnv saveRequest emptyWorld] d(1)
  have "requests (snd (performTranslation quietEnv DEFAULT_AI_CONFIG saveRequest emptyWorld))
      = (if timeoutInRange (numOr (timeout DEFAULT_AI_CONFIG) 10000)
         then requests emptyWorld @
           [OpenAIRequest (apiKey DEFAULT_AI_CONFIG) (strOr (model DEFAULT_AI_CONFIG) (ascii ''gpt-3.5-turbo''))
              (numOr (timeout DEFAULT_AI_CONFIG) 10000) saveRequest]
         else requests emptyWorld)"
    by blast
  then have r3: "requests (snd (performTranslation quietEnv DEFAULT_AI_CONFIG saveRequest emptyWorld))
      = requests emptyWorld @
        [OpenAIRequest (apiKey DEFAULT_AI_CONFIG) (strOr (model DEFAULT_AI_CONFIG) (ascii ''gpt-3.5-turbo''))
           (numOr (timeout DEFAULT_AI_CONFIG) 10000) saveRequest]"
    using c(3,4) by simp
  from provider_selection[of negativeTimeout quietEnv saveRequest emptyWorld] d(2)
  have "requests (snd (performTranslation quietEnv negativeTimeout saveRequest emptyWorld))
      = (if timeoutInRange (numOr (timeout negativeTimeout) 10000)
         then requests emptyWorld @
           [OpenAIRequest (apiKey negativeTimeout) (strOr (model negativeTimeout) (ascii ''gpt-3.5-turbo''))
              (numOr (timeout negativeTimeout) 10000) saveRequest]
         else requests emptyWorld)"
    by blast
  then have r4: "requests (snd (performTranslation quietEnv negativeTimeout saveRequest emptyWorld))
      = requests emptyWorld"
    using c(5) by simp
  from provider_selection[of _ quietEnv] s
  have r5: "newAITranslator quietEnv noOverrides = DEFAULT_AI_CONFIG" by blast
  show ?thesis using r1 r2 r3 r4 r5 unfolding p e c by simp
qed

text \<open>
  The claim as stated fails. With nothing configured, the default instance translates with
  the provider \<open>openai\<close> and an empty API key: the attempt issues a network request and fails
  with the transport error, not with a configuration error. And with a provider that is
  none of the four, a request that the cache answers raises no error at all.
\<close>

theorem provider_selection_counterexample:
  "storedConfig quietEnv = None
   \<and> fst (translate quietEnv (newAITranslator quietEnv noOverrides) saveRequest emptyWorld)
       = Inl (TranslationFailed FetchRejected)
   \<and> requests (snd (translate quietEnv (newAITranslator quietEnv noOverrides) saveRequest emptyWorld))
       = [OpenAIRequest [] (ascii ''gpt-3.5-turbo'') 10000 saveRequest]
   \<and> provider nullProvider = None
   \<and> fst (translate quietEnv nullProvider saveRequest
            (cacheSet quietEnv saveRequest saveResponse emptyWorld))
       = Inr \<lparr>translatedText = [0x4FDD, 0x5B58], sourceLanguage = ascii ''auto'',
              targetLanguage = ascii ''zh''\<rparr>"
proof -
  have s: "storedConfig quietEnv = None" by (simp add: quietEnv_def)
  have c: "newAITranslator quietEnv noOverrides = DEFAULT_AI_CONFIG"
    using s by (rule getAIConfig_default)
  have m: "cacheGet quietEnv saveRequest emptyWorld = (None, emptyWorld)"
    by (simp add: cacheGet_def emptyWorld_def)
  have t: "translate quietEnv DEFAULT_AI_CONFIG saveRequest emptyWorld
      = (Inl (TranslationFailed FetchRejected),
         emptyWorld\<lparr>requests := [OpenAIRequest [] (ascii ''gpt-3.5-turbo'') 10000 saveRequest]\<rparr>)"
    unfolding translate_def m
    by (simp add: performTranslation_def translateWithOpenAI_def callProvider_def timeoutInRange_def
        DEFAULT_AI_CONFIG_def quietEnv_def emptyWorld_def strOr_def numOr_def ascii_def Let_def)
  have h: "fst (translate quietEnv nullProvider saveRequest
            (cacheSet quietEnv saveRequest saveResponse emptyWorld))
       = Inr \<lparr>translatedText = [0x4FDD, 0x5B58], sourceLanguage = ascii ''auto'',
              targetLanguage = ascii ''zh''\<rparr>"
    by (simp add: translate_def quiet_get_after_set)
  show ?thesis using s h unfolding c t by (simp add: nullProvider_def)
qed

lemma replaceWhiteSpace_id: "\<forall>c\<in>set s. \<not> isWhiteSpace c \<Longrightarrow> replaceWhiteSpace s = s"
  by (induction s) auto

lemma trim_id: "\<forall>c\<in>set s. \<not> isWhiteSpace c \<Longrightarrow> trim s = s"
proof -
  assume a: "\<forall>c\<in>set s. \<not> isWhiteSpace c"
  have d: "dropWhile isWhiteSpace t = t" if "\<forall>c\<in>set t. \<not> isWhiteSpace c" for t
    using that by (cases t) auto
  show ?thesis using a by (simp add: trim_def d)
qed

lemma numbered_key:
  "generateCacheKey (numberedRequest n) = ascii ''en-zh-'' @ replicate (Suc n) 0x78 @ ascii ''-''"
proof -
  have x: "\<not> isWhiteSpace 0x78" "toLowerUnit 0x78 = 0x78"
    by (simp_all add: isWhiteSpace_def toLowerUnit_def)
  have l: "toLowerCase (replicate (Suc n) 0x78) = replicate (Suc n) 0x78"
    unfolding toLowerCase_def using x(2) by (simp add: map_replicate_const[symmetric] del: replicate_Suc)
  have t: "trim (replicate (Suc n) 0x78) = replicate (Suc n) 0x78"
    using x(1) by (intro trim_id) auto
  have "\<forall>c\<in>set (ascii ''en-zh-'' @ replicate (Suc n) 0x78 @ ascii ''-''). \<not> isWhiteSpace c"
    using x(1) by (auto simp: ascii_def isWhiteSpace_def)
  from replaceWhiteSpace_id[OF this] show ?thesis
    by (simp add: generateCacheKey_def numberedRequest_def l t strOr_def ascii_def del: replicate_Suc)
qed

lemma numbered_key_inj: "generateCacheKey (numberedRequest n) = generateCacheKey (numberedRequest m) \<Longrightarrow> n = m"
proof -
  assume "generateCacheKey (numberedRequest n) = generateCacheKey (numberedRequest m)"
  then have "length (generateCacheKey (numberedRequest n)) = length (generateCacheKey (numberedRequest m))"
    by simp
  then show ?thesis by (simp add: numbered_key)
qed

lemma quiet_set_cache:
  "cache (cacheSet quietEnv request response w)
     = AList.update (generateCacheKey request) (newEntry quietEnv response w) (cache w)"
  by (simp add: cacheSet_unfold afterWrite_def saveCache_unfold quietEnv_def)

lemma afterSets_Suc: "afterSets (Suc m) = cacheSet quietEnv (numberedRequest m) saveResponse (afterSets m)"
  by (simp add: afterSets_def)

lemma afterSets_keys: "map fst (cache (afterSets m)) = map (\<lambda>n. generateCacheKey (numberedRequest n)) [0..<m]"
proof (induction m)
  case 0
  then show ?case by (simp add: afterSets_def emptyWorld_def)
next
  case (Suc m)
  have "generateCacheKey (numberedRequest m) \<notin> set (map fst (cache (afterSets m)))"
    using numbered_key_inj by (fastforce simp: Suc)
  then show ?case
    by (simp add: afterSets_Suc quiet_set_cache update_keys Suc)
qed

text \<open>
  The eviction pass runs when the write of \<open>set\<close> throws: from a full store it leaves
  \<open>MAX_CACHE_SIZE - 100\<close> entries, the one just written among them when the others are older.
\<close>

lemma set_evicts_when_storage_full:
  assumes d: "distinct (map fst (cache w))"
    and full: "length (cache w) = MAX_CACHE_SIZE"
    and new: "generateCacheKey request \<notin> fst ` set (cache w)"
    and throws: "setItemThrows E (setItemCalls w)"
    and quiet: "\<not> mathRandom E (randomCalls w) < 1 / 10"
    and older: "\<forall>(key, e)\<in>set (cache w). timestamp e < dateNow E (nowCalls w)"
  shows "length (cache (cacheSet E request response w)) = MAX_CACHE_SIZE - 100
       \<and> map_of (cache (cacheSet E request response w)) (generateCacheKey request)
           = Some (newEntry E response w)"
proof -
  let ?k = "generateCacheKey request" and ?e = "newEntry E response w"
  let ?a = "afterWrite E request response w"
  let ?a1 = "?a\<lparr>setItemCalls := Suc (setItemCalls ?a)\<rparr>"
  have ca: "cache ?a = AList.update ?k ?e (cache w)" using quiet by (simp add: afterWrite_def)
  have "map fst (cache ?a) = map fst (cache w) @ [?k]" using new by (simp add: ca update_keys)
  then have "length (map fst (cache ?a)) = Suc (length (cache w))" by simp
  then have la: "length (cache ?a) = Suc MAX_CACHE_SIZE" using full by simp
  have da: "distinct (map fst (cache ?a))" using d by (rule afterWrite_distinct)
  have ta: "setItemThrows E (setItemCalls ?a)" using throws by (simp add: afterWrite_simps(1))
  have c: "cache (cacheSet E request response w) = cache (cleanupOldEntries ?a1)"
    using ta by (simp add: cacheSet_unfold saveCache_unfold)
  have size: "length (cache (cleanupOldEntries ?a1)) = MAX_CACHE_SIZE - 100"
    by (rule cleanupOldEntries_size) (use da la in simp_all)
  have m: "map_of (cache ?a1) ?k = Some ?e" by (simp add: ca update_conv')
  have o: "\<forall>(k', e')\<in>set (cache ?a1). k' \<noteq> ?k \<longrightarrow> timestamp e' < timestamp ?e"
    using older set_update_subset[of ?k ?e "cache w"] by (auto simp: ca newEntry_def)
  have keep: "map_of (cache (cleanupOldEntries ?a1)) ?k = Some ?e"
    by (rule cleanupOldEntries_keeps[OF _ m o]) (use da in simp)
  show ?thesis using c size keep by simp
qed

text \<open>
  Claim C2 fails on the code. After one thousand \<open>set\<close> calls with distinct texts the store
  holds 1000 entries; one further \<open>set\<close> with a new text, whose storage write succeeds,
  leaves 1001 entries, more than \<open>MAX_CACHE_SIZE\<close>: \<open>set\<close> reaches the eviction pass
  \<open>cleanupOldEntries\<close> only when \<open>localStorage.setItem\<close> throws.
\<close>

theorem set_exceeds_capacity:
  "length (cache (afterSets 1000)) = 1000
   \<and> length (cache (cacheSet quietEnv (numberedRequest 1000) saveResponse (afterSets 1000))) = 1001
   \<and> MAX_CACHE_SIZE < length (cache (cacheSet quietEnv (numberedRequest 1000) saveResponse (afterSets 1000)))"
proof -
  have "length (cache (afterSets m)) = m" for m
    using arg_cong[OF afterSets_keys[of m], of length] by simp
  then show ?thesis by (simp add: afterSets_Suc[symmetric] MAX_CACHE_SIZE_def)
qed

section \<open>Properties of the optimized batch\<close>

lemma inherited_lang: "lang \<in> set objectPrototypeNames \<Longrightarrow> isAlreadyTranslated str lang = None"
proof -
  assume a: "lang \<in> set objectPrototypeNames"
  have "map_of patterns lang = None"
    using a by (auto simp: patterns_def objectPrototypeNames_def ascii_def)
  then show ?thesis using a by (simp add: isAlreadyTranslated_def getProperty_def)
qed

lemma own_lang: "lang \<notin> set objectPrototypeNames \<Longrightarrow> isAlreadyTranslated str lang \<noteq> None"
  by (cases "map_of patterns lang") (simp_all add: isAlreadyTranslated_def getProperty_def)

lemma filterUntranslated_inherited:
  "lang \<in> set objectPrototypeNames \<Longrightarrow> items \<noteq> [] \<Longrightarrow> filterUntranslated lang items = None"
  by (cases items) (simp_all add: inherited_lang)

lemma filterUntranslated_own:
  "lang \<notin> set objectPrototypeNames \<Longrightarrow> filterUntranslated lang items = Some (pending lang items)"
proof (induction items)
  case Nil
  then show ?case by (simp add: pending_def)
next
  case (Cons item rest)
  obtain b where b: "isAlreadyTranslated (item_text item) lang = Some b"
    using own_lang[OF Cons.prems, of "item_text item"] by auto
  show ?case using Cons b by (simp add: pending_def)
qed

lemma filterUntranslated_Some:
  "filterUntranslated lang items = Some kept \<Longrightarrow> kept = pending lang items"
proof (cases "lang \<in> set objectPrototypeNames")
  case True
  assume a: "filterUntranslated lang items = Some kept"
  then have "items = []" using filterUntranslated_inherited[OF True, of items] by (cases items) auto
  with a show ?thesis by (simp add: pending_def)
next
  case False
  assume "filterUntranslated lang items = Some kept"
  then show ?thesis using filterUntranslated_own[OF False, of items] by simp
qed

lemma fillTranslationMap_keys:
  "fillTranslationMap toTranslate rs index m = Some m' \<Longrightarrow>
   m' k = m k \<or> k \<in> item_text ` set toTranslate"
proof (induction rs arbitrary: index m)
  case Nil
  then show ?case by simp
next
  case (Cons r rs)
  from Cons.prems obtain t where i: "index < length toTranslate" and r: "r = Item t"
    and rest: "fillTranslationMap toTranslate rs (Suc index)
                 (m(item_text (toTranslate ! index) \<mapsto> t)) = Some m'"
    by (auto split: if_splits reply_item.splits)
  from Cons.IH[OF rest] i show ?case
    by (cases "k = item_text (toTranslate ! index)") auto
qed

lemma fillTranslationMap_None:
  "index \<le> length toTranslate \<Longrightarrow>
   fillTranslationMap toTranslate rs index m = None
     \<longleftrightarrow> index + length rs > length toTranslate \<or> NullItem \<in> set rs"
proof (induction rs arbitrary: index m)
  case Nil
  then show ?case by simp
next
  case (Cons r rs)
  show ?case
  proof (cases r)
    case NullItem
    then show ?thesis by simp
  next
    case (Item t)
    show ?thesis
    proof (cases "index < length toTranslate")
      case True
      then have "Suc index \<le> length toTranslate" by simp
      from Cons.IH[OF this] True Item show ?thesis by auto
    next
      case False
      then show ?thesis using Item Cons.prems by simp
    qed
  qed
qed

lemma pending_text: "k \<in> item_text ` set (pending lang items) \<Longrightarrow> isAlreadyTranslated k lang \<noteq> Some True"
  by (auto simp: pending_def)

lemma tryBatch_issued:
  "snd (tryBatch baseUrl fetchBatch lang items) = []
   \<or> snd (tryBatch baseUrl fetchBatch lang items) = [batchRequest baseUrl lang items]"
  by (auto simp: tryBatch_def Let_def batchRequest_def dest!: filterUntranslated_Some
      split: batch_fetch_result.splits reply_body.splits option.splits)

lemma tryBatch_all_translated:
  assumes "\<forall>item\<in>set items. isAlreadyTranslated (item_text item) lang = Some True"
  shows "tryBatch baseUrl fetchBatch lang items = (Inr (unchangedItems items), [])"
proof -
  have "filterUntranslated lang items = Some []"
    using assms by (induction items) auto
  then show ?thesis by (simp add: tryBatch_def unchangedItems_def)
qed

lemma getFallbackTranslations_fallbackFor:
  "getFallbackTranslations items = map (\<lambda>item. \<lparr>result_key = item_key item, translated = fallbackFor item\<rparr>) items"
proof -
  have "(case getProperty fallbackCore (item_key item) of
           Own s \<Rightarrow> if s = [] then Str (item_text item) else Str s
         | Inherited name \<Rightarrow> Member name
         | Undefined \<Rightarrow> Str (item_text item)) = fallbackFor item" for item :: batch_item
    by (simp add: getProperty_def fallbackCore_def fallbackFor_def ascii_def)
  then show ?thesis by (simp add: getFallbackTranslations_def)
qed

lemma translateBatchOptimized_unfold:
  "translateBatchOptimized baseUrl fetchBatch lang items =
     ((case fst (tryBatch baseUrl fetchBatch lang items) of
         Inr result \<Rightarrow> result | Inl error \<Rightarrow> getFallbackTranslations items),
      snd (tryBatch baseUrl fetchBatch lang items))"
  by (simp add: translateBatchOptimized_def split: prod.splits sum.splits)

lemma tryBatch_answered:
  assumes own: "lang \<notin> set objectPrototypeNames" and p: "pending lang items \<noteq> []"
    and a: "answers (fetchBatch (batchRequest baseUrl lang items)) (length (pending lang items))"
  shows "\<exists>m. tryBatch baseUrl fetchBatch lang items =
           (Inr (map (\<lambda>item. \<lparr>result_key = item_key item,
                   translated = Str (strOr (case m (item_text item) of None \<Rightarrow> None | Some t \<Rightarrow> t)
                                       (item_text item))\<rparr>) items),
            [batchRequest baseUrl lang items])
         \<and> (\<forall>k. isAlreadyTranslated k lang = Some True \<longrightarrow> m k = None)"
proof -
  let ?rq = "batchRequest baseUrl lang items"
  from a obtain response ts where r: "fetchBatch ?rq = BatchResponded response" "reply_ok response"
    "reply_body response = ReplyData (Some ts)" "length ts \<le> length (pending lang items)"
    "NullItem \<notin> set ts"
    by (auto simp: answers_def split: batch_fetch_result.splits reply_body.splits option.splits)
  have "fillTranslationMap (pending lang items) ts 0 Map.empty \<noteq> None"
    using r(4,5) by (simp add: fillTranslationMap_None)
  then obtain m where m: "fillTranslationMap (pending lang items) ts 0 Map.empty = Some m" by auto
  have "m k = None" if "isAlreadyTranslated k lang = Some True" for k
    using fillTranslationMap_keys[OF m, of k] pending_text[of k lang items] that by auto
  moreover have "tryBatch baseUrl fetchBatch lang items =
           (Inr (map (\<lambda>item. \<lparr>result_key = item_key item,
                   translated = Str (strOr (case m (item_text item) of None \<Rightarrow> None | Some t \<Rightarrow> t)
                                       (item_text item))\<rparr>) items), [?rq])"
    using p r(1,2,3) m filterUntranslated_own[OF own, of items]
    by (simp add: tryBatch_def Let_def batchRequest_def[symmetric])
  ultimately show ?thesis by blast
qed

lemma tryBatch_unanswered:
  assumes own: "lang \<notin> set objectPrototypeNames" and p: "pending lang items \<noteq> []"
    and a: "\<not> answers (fetchBatch (batchRequest baseUrl lang items)) (length (pending lang items))"
  shows "\<exists>error. tryBatch baseUrl fetchBatch lang items = (Inl error, [batchRequest baseUrl lang items])"
proof -
  let ?rq = "batchRequest baseUrl lang items"
  have f: "filterUntranslated lang items = Some (pending lang items)"
    by (rule filterUntranslated_own[OF own])
  have rq: "\<lparr>url = baseUrl @ ascii ''/translate/batch'', texts = map item_text (pending lang items),
             source_language = ascii ''auto'', target_language = lang,
             request_context = ascii ''web interface UI text translation''\<rparr> = ?rq"
    by (simp add: batchRequest_def)
  show ?thesis
  proof (cases "fetchBatch ?rq")
    case BatchRejected
    then show ?thesis using p by (simp add: tryBatch_def f rq Let_def)
  next
    case (BatchResponded response)
    show ?thesis
    proof (cases "reply_ok response")
      case False
      then show ?thesis using p BatchResponded by (simp add: tryBatch_def f rq Let_def)
    next
      case True
      show ?thesis
      proof (cases "reply_body response")
        case ReplyInvalid
        then show ?thesis using p BatchResponded True by (simp add: tryBatch_def f rq Let_def)
      next
        case (ReplyData data)
        show ?thesis
        proof (cases data)
          case None
          then show ?thesis using p BatchResponded True ReplyData by (simp add: tryBatch_def f rq Let_def)
        next
          case (Some ts)
          have "length ts > length (pending lang items) \<or> NullItem \<in> set ts"
            using a BatchResponded True ReplyData Some by (auto simp: answers_def)
          then have "fillTranslationMap (pending lang items) ts 0 Map.empty = None"
            by (simp add: fillTranslationMap_None)
          then show ?thesis using p BatchResponded True ReplyData Some
            by (simp add: tryBatch_def f rq Let_def)
        qed
      qed
    qed
  qed
qed

lemma tryBatch_throws:
  "lang \<in> set objectPrototypeNames \<Longrightarrow> items \<noteq> [] \<Longrightarrow>
   tryBatch baseUrl fetchBatch lang items = (Inl TypeError, [])"
  by (simp add: tryBatch_def filterUntranslated_inherited)

text \<open>
  Claim C8 (as amended). In \<open>translateBatchOptimized\<close> a text classified as already in the
  target language is never part of a request sent to the provider; when every item is so
  classified no request is issued and every item keeps its text. Otherwise one request
  carries the texts of the other items. When its reply answers them (status ok, a list
  \<open>translations\<close> with no \<open>null\<close> and no more elements than texts sent), every classified
  item keeps its text. When it does not (the fetch rejects or is aborted by the timeout,
  the status is not ok, the body is malformed), and when the classifier itself throws (a
  target language that names a member of \<open>Object.prototype\<close>, then before any request),
  every item, classified or not, gets the fallback: the built-in string for its key if
  there is one, else its own text.
\<close>

theorem batch_skips_already_translated:
  "(\<forall>rq\<in>set (snd (translateBatchOptimized baseUrl fetchBatch lang items)).
      \<forall>item\<in>set items. isAlreadyTranslated (item_text item) lang = Some True \<longrightarrow>
        item_text item \<notin> set (texts rq))
   \<and> ((\<forall>item\<in>set items. isAlreadyTranslated (item_text item) lang = Some True) \<longrightarrow>
        translateBatchOptimized baseUrl fetchBatch lang items =
          (map (\<lambda>item. \<lparr>result_key = item_key item, translated = Str (item_text item)\<rparr>) items, []))
   \<and> (lang \<notin> set objectPrototypeNames \<and> pending lang items \<noteq> []
        \<and> answers (fetchBatch (batchRequest baseUrl lang items)) (length (pending lang items)) \<longrightarrow>
        snd (translateBatchOptimized baseUrl fetchBatch lang items) = [batchRequest baseUrl lang items]
        \<and> length (fst (translateBatchOptimized baseUrl fetchBatch lang items)) = length items
        \<and> (\<forall>i<length items. isAlreadyTranslated (item_text (items ! i)) lang = Some True \<longrightarrow>
              fst (translateBatchOptimized baseUrl fetchBatch lang items) ! i
                = \<lparr>result_key = item_key (items ! i), translated = Str (item_text (items ! i))\<rparr>))
   \<and> (lang \<notin> set objectPrototypeNames \<and> pending lang items \<noteq> []
        \<and> \<not> answers (fetchBatch (batchRequest baseUrl lang items)) (length (pending lang items)) \<longrightarrow>
        translateBatchOptimized baseUrl fetchBatch lang items =
          (map (\<lambda>item. \<lparr>result_key = item_key item, translated = fallbackFor item\<rparr>) items,
           [batchRequest baseUrl lang items]))
   \<and> (lang \<in> set objectPrototypeNames \<and> items \<noteq> [] \<longrightarrow>
        translateBatchOptimized baseUrl fetchBatch lang items =
          (map (\<lambda>item. \<lparr>result_key = item_key item, translated = fallbackFor item\<rparr>) items, []))"
proof -
  let ?T = "translateBatchOptimized baseUrl fetchBatch lang items"
  let ?rq = "batchRequest baseUrl lang items"
  have one: "item_text item \<notin> set (texts rq)"
    if "rq \<in> set (snd ?T)" "item \<in> set items" "isAlreadyTranslated (item_text item) lang = Some True"
    for rq item
  proof -
    from that(1) have "rq = ?rq"
      using tryBatch_issued[of baseUrl fetchBatch lang items]
      by (auto simp: translateBatchOptimized_unfold)
    then have "texts rq = map item_text (pending lang items)" by (simp add: batchRequest_def)
    then show ?thesis using pending_text[of "item_text item" lang items] that(3) by auto
  qed
  have two: "?T = (map (\<lambda>item. \<lparr>result_key = item_key item, translated = Str (item_text item)\<rparr>) items, [])"
    if "\<forall>item\<in>set items. isAlreadyTranslated (item_text item) lang = Some True"
    using tryBatch_all_translated[OF that, of baseUrl fetchBatch]
    by (simp add: translateBatchOptimized_unfold unchangedItems_def)
  have three: "snd ?T = [?rq] \<and> length (fst ?T) = length items
        \<and> (\<forall>i<length items. isAlreadyTranslated (item_text (items ! i)) lang = Some True \<longrightarrow>
              fst ?T ! i = \<lparr>result_key = item_key (items ! i), translated = Str (item_text (items ! i))\<rparr>)"
    if "lang \<notin> set objectPrototypeNames" "pending lang items \<noteq> []"
      "answers (fetchBatch ?rq) (length (pending lang items))"
  proof -
    from tryBatch_answered[where fetchBatch=fetchBatch and baseUrl=baseUrl, OF that] obtain m where
      t: "tryBatch baseUrl fetchBatch lang items =
           (Inr (map (\<lambda>item. \<lparr>result_key = item_key item,
                   translated = Str (strOr (case m (item_text item) of None \<Rightarrow> None | Some t \<Rightarrow> t)
                                       (item_text item))\<rparr>) items), [?rq])"
      and m: "\<forall>k. isAlreadyTranslated k lang = Some True \<longrightarrow> m k = None"
      by blast
    show ?thesis using m by (simp add: translateBatchOptimized_unfold t strOr_def)
  qed
  have four: "?T = (map (\<lambda>item. \<lparr>result_key = item_key item, translated = fallbackFor item\<rparr>) items, [?rq])"
    if "lang \<notin> set objectPrototypeNames" "pending lang items \<noteq> []"
      "\<not> answers (fetchBatch ?rq) (length (pending lang items))"
    using tryBatch_unanswered[where fetchBatch=fetchBatch and baseUrl=baseUrl, OF that]
    by (auto simp: translateBatchOptimized_unfold getFallbackTranslations_fallbackFor)
  have five: "?T = (map (\<lambda>item. \<lparr>result_key = item_key item, translated = fallbackFor item\<rparr>) items, [])"
    if "lang \<in> set objectPrototypeNames" "items \<noteq> []"
    using tryBatch_throws[OF that, of baseUrl fetchBatch]
    by (simp add: translateBatchOptimized_unfold getFallbackTranslations_fallbackFor)
  show ?thesis using one two three four five by blast
qed

lemmas batch_eval = translateBatchOptimized_def tryBatch_def getFallbackTranslations_def fallbackCore_def
  isAlreadyTranslated_def getProperty_def patterns_def objectPrototypeNames_def savedItems_def
  greetingReply_def greeting_def strOr_def ascii_def Let_def

text \<open>
  The claim as stated fails: target \<open>zh\<close>, an item with key \<open>common.save\<close> whose text is
  already Chinese, a second item to translate, and a batch request that fails: the first
  item comes back as \<open>Save\<close>, not as its own text.
\<close>

theorem batch_skips_already_translated_counterexample:
  "isAlreadyTranslated (item_text (savedItems ! 0)) (ascii ''zh'') = Some True
   \<and> fst (translateBatchOptimized (ascii ''/api'') (\<lambda>rq. BatchRejected) (ascii ''zh'') savedItems) ! 0
       = \<lparr>result_key = ascii ''common.save'', translated = Str (ascii ''Save'')\<rparr>
   \<and> translated (fst (translateBatchOptimized (ascii ''/api'') (\<lambda>rq. BatchRejected) (ascii ''zh'') savedItems) ! 0)
       \<noteq> Str (item_text (savedItems ! 0))"
  by (simp add: batch_eval)

lemma saved_pending:
  "pending (ascii ''zh'') savedItems = [\<lparr>item_key = ascii ''greeting'', item_text = ascii ''Hello''\<rparr>]"
  "ascii ''zh'' \<notin> set objectPrototypeNames"
  "ascii ''constructor'' \<in> set objectPrototypeNames"
  "isAlreadyTranslated (item_text (savedItems ! 0)) (ascii ''zh'') = Some True"
  by (simp_all add: pending_def batch_eval)

theorem batch_skips_already_translated_witness:
  "fst (translateBatchOptimized (ascii ''/api'') (\<lambda>rq. greetingReply) (ascii ''zh'') savedItems) ! 0
     = \<lparr>result_key = ascii ''common.save'', translated = Str [0x4FDD, 0x5B58]\<rparr>
   \<and> map texts (snd (translateBatchOptimized (ascii ''/api'') (\<lambda>rq. greetingReply) (ascii ''zh'') savedItems))
     = [[ascii ''Hello'']]
   \<and> translateBatchOptimized (ascii ''/api'') (\<lambda>rq. greetingReply) (ascii ''zh'') [savedItems ! 0]
     = ([\<lparr>result_key = ascii ''common.save'', translated = Str [0x4FDD, 0x5B58]\<rparr>], [])
   \<and> fst (translateBatchOptimized (ascii ''/api'') (\<lambda>rq. BatchRejected) (ascii ''zh'') savedItems)
     = [\<lparr>result_key = ascii ''common.save'', translated = Str (ascii ''Save'')\<rparr>,
        \<lparr>result_key = ascii ''greeting'', translated = Str (ascii ''Hello'')\<rparr>]
   \<and> translateBatchOptimized (ascii ''/api'') (\<lambda>rq. greetingReply) (ascii ''constructor'') savedItems
     = ([\<lparr>result_key = ascii ''common.save'', translated = Str (ascii ''Save'')\<rparr>,
         \<lparr>result_key = ascii ''greeting'', translated = Str (ascii ''Hello'')\<rparr>], [])"
proof -
  let ?ok = "\<lambda>rq::batch_request. greetingReply" and ?down = "\<lambda>rq::batch_request. BatchRejected"
  let ?rq = "batchRequest (ascii ''/api'') (ascii ''zh'') savedItems"
  have p: "pending (ascii ''zh'') savedItems \<noteq> []" by (simp add: saved_pending(1))
  have a: "answers (?ok ?rq) (length (pending (ascii ''zh'') savedItems))"
    by (simp add: saved_pending(1) answers_def greetingReply_def)
  have d: "\<not> answers (?down ?rq) (length (pending (ascii ''zh'') savedItems))"
    by (simp add: answers_def)
  have i: "(0::nat) < length savedItems" by (simp add: savedItems_def)
  have all: "\<forall>item\<in>set [savedItems ! 0]. isAlreadyTranslated (item_text item) (ascii ''zh'') = Some True"
    using saved_pending(4) by simp
  have ne: "savedItems \<noteq> []" by (simp add: savedItems_def)
  have t: "texts ?rq = [ascii ''Hello'']" by (simp add: batchRequest_def saved_pending(1))
  have f: "map (\<lambda>item. \<lparr>result_key = item_key item, translated = fallbackFor item\<rparr>) savedItems
      = [\<lparr>result_key = ascii ''common.save'', translated = Str (ascii ''Save'')\<rparr>,
         \<lparr>result_key = ascii ''greeting'', translated = Str (ascii ''Hello'')\<rparr>]"
    by (simp add: savedItems_def fallbackFor_def objectPrototypeNames_def ascii_def)
  note T = batch_skips_already_translated[of "ascii ''/api''" ?ok "ascii ''zh''" savedItems]
  from T saved_pending(2) p a
  have 1: "snd (translateBatchOptimized (ascii ''/api'') ?ok (ascii ''zh'') savedItems) = [?rq]"
    and "\<forall>i<length savedItems. isAlreadyTranslated (item_text (savedItems ! i)) (ascii ''zh'') = Some True \<longrightarrow>
          fst (translateBatchOptimized (ascii ''/api'') ?ok (ascii ''zh'') savedItems) ! i
            = \<lparr>result_key = item_key (savedItems ! i), translated = Str (item_text (savedItems ! i))\<rparr>"
    by blast+
  then have 2: "fst (translateBatchOptimized (ascii ''/api'') ?ok (ascii ''zh'') savedItems) ! 0
      = \<lparr>result_key = item_key (savedItems ! 0), translated = Str (item_text (savedItems ! 0))\<rparr>"
    using i saved_pending(4) by blast
  from batch_skips_already_translated[of "ascii ''/api''" ?ok "ascii ''zh''" "[savedItems ! 0]"] all
  have 3: "translateBatchOptimized (ascii ''/api'') ?ok (ascii ''zh'') [savedItems ! 0]
      = (map (\<lambda>item. \<lparr>result_key = item_key item, translated = Str (item_text item)\<rparr>) [savedItems ! 0], [])"
    by blast
  from batch_skips_already_translated[of "ascii ''/api''" ?down "ascii ''zh''" savedItems]
    saved_pending(2) p d
  have 4: "translateBatchOptimized (ascii ''/api'') ?down (ascii ''zh'') savedItems
      = (map (\<lambda>item. \<lparr>result_key = item_key item, translated = fallbackFor item\<rparr>) savedItems, [?rq])"
    by blast
  from batch_skips_already_translated[of "ascii ''/api''" ?ok "ascii ''constructor''" savedItems]
    saved_pending(3) ne
  have 5: "translateBatchOptimized (ascii ''/api'') ?ok (ascii ''constructor'') savedItems
      = (map (\<lambda>item. \<lparr>result_key = item_key item, translated = fallbackFor item\<rparr>) savedItems, [])"
    by blast
  show ?thesis unfolding 1 2 3 4 5 f using t by (simp add: savedItems_def)
qed


section \<open>Properties of the page transformer\<close>



lemma setElementText_attrs [simp]:
  "data_originalText (setElementText str e) = data_originalText e"
  "data_translated (setElementText str e) = data_translated e"
  "data_aiTranslated (setElementText str e) = data_aiTranslated e"
  "tagName (setElementText str e) = tagName e"
  by (simp_all add: setElementText_def)





lemma restoreAll_unfold:
  "restoreAll (d, s) = (fold restoreStep (elements s) d, s\<lparr>isTranslated := False\<rparr>)"
proof -
  have "(\<lambda>(key, pageElement) d. d[element pageElement := restoreElement (d ! element pageElement)])
      = restoreStep"
    by (auto simp: restoreStep_def fun_eq_iff)
  then show ?thesis by (simp add: restoreAll_def)
qed

lemma fold_restoreStep_length [simp]: "length (fold restoreStep es d) = length d"
  by (induction es arbitrary: d) (simp_all add: restoreStep_def)





lemma fold_restoreTextStep_length [simp]: "length (fold restoreTextStep as d) = length d"
  by (induction as arbitrary: d) (simp_all add: restoreTextStep_def)

lemma not_truthy_cleared [simp]: "\<not> truthy (data_originalText (clearedElement e))"
  by (simp add: clearedElement_def truthy_def)










text \<open>
  \<open>restoreAll\<close> removes the marker \<open>data-translated\<close> and leaves the attribute
  \<open>data-original-text\<close>, the one it keys on, in place.
\<close>

lemma restoreElement_keeps_originalText:
  "data_originalText (restoreElement e) = data_originalText e"
  by (simp add: restoreElement_def)


section \<open>A concrete document\<close>

lemma attached_headingDocument: "attached headingDocument = [0, 1, 2]"
  by (simp add: attached_def descendants_def headingDocument_def bareElement_def eval_nat_numeral)

lemmas dom_eval = getElementText_def textContent_def trim_def isWhiteSpace_def ascii_def
  bareElement_def headingDocument_def Let_def

lemma getElementText_heading: "getElementText headingDocument (Suc 0) = ascii ''Hi''"
  by (simp add: dom_eval)

lemma headingCss_svg: "querySelector headingCss d a (ascii ''svg'') = None"
proof -
  have "ascii ''svg'' \<noteq> ascii ''h1, h2, h3, h4, h5, h6''" by (simp add: ascii_def)
  then have "headingCss (ascii ''svg'') d = (\<lambda>a. False)" by (simp add: headingCss_def fun_eq_iff)
  then show ?thesis by (simp add: querySelector_def find_None_iff)
qed

lemma plain_Hi: "\<not> list_ex isSpecialCharacter (ascii ''Hi'')"
  by (simp add: isSpecialCharacter_def ascii_def)

lemma heading_element: "headingDocument ! Suc 0 = bareElement ''H1'' [TextNode (ascii ''Hi''), ElementNode 2]"
  by (simp add: headingDocument_def)

lemma shouldSkip_heading: "\<not> shouldSkipElement headingCss headingDocument (Suc 0)"
  unfolding shouldSkipElement_def headingCss_svg getElementText_heading heading_element
  using plain_Hi by (simp add: bareElement_def ascii_def)

lemma scanSelector_other:
  "sel \<noteq> ascii ''h1, h2, h3, h4, h5, h6'' \<Longrightarrow> scanSelector headingCss headingDocument sel found = found"
  by (simp add: scanSelector_def querySelectorAll_def headingCss_def)

lemma scanSelector_heading:
  "scanSelector headingCss headingDocument (ascii ''h1, h2, h3, h4, h5, h6'') [] =
     [(ascii ''h1, h2, h3, h4, h5, h6-0-Hi'', scannedHeading)]"
proof -
  have q: "querySelectorAll headingCss headingDocument (ascii ''h1, h2, h3, h4, h5, h6'') = [Suc 0]"
    by (simp add: querySelectorAll_def attached_headingDocument headingCss_def)
       (simp add: headingDocument_def bareElement_def ascii_def)
  have d: "decimal 0 = ascii ''0''" by (simp add: decimal.simps decimal_digit_def ascii_def)
  have t: "trim (ascii ''Hi'') \<noteq> []" "ascii ''Hi'' \<noteq> []"
    by (simp_all add: ascii_def trim_def isWhiteSpace_def)
  have k: "ascii ''h1, h2, h3, h4, h5, h6'' @ ascii ''-'' @ ascii ''0'' @ ascii ''-'' @ take 20 (ascii ''Hi'')
      = ascii ''h1, h2, h3, h4, h5, h6-0-Hi''"
    by (simp add: ascii_def)
  show ?thesis
    using shouldSkip_heading t
    by (simp add: scanSelector_def q getElementText_heading d scannedHeading_def k)
qed

lemma scan_heading:
  "elements (scanPage headingCss headingDocument s) =
     [(ascii ''h1, h2, h3, h4, h5, h6-0-Hi'', scannedHeading)]"
proof -
  have ne: "sel \<noteq> ascii ''h1, h2, h3, h4, h5, h6''"
    if "sel \<in> set (ascii ''button:not(:has(svg))'' # ascii ''.chakra-menu__menuitem''
          # (ascii ''[role='' @ [0x22] @ ascii ''menuitem'' @ [0x22] @ ascii '']'')
          # ascii ''.chakra-button''
          # (ascii ''a[role='' @ [0x22] @ ascii ''menuitem'' @ [0x22] @ ascii '']'')
          # ascii ''.sidebar-item-text'' # ascii ''nav a'' # ascii ''.form-label''
          # ascii ''.input-label'' # [ascii ''[data-translate]''])" for sel
    using that by (auto simp: ascii_def)
  have o: "scanSelector headingCss headingDocument sel found = found"
    if "sel \<in> set (ascii ''button:not(:has(svg))'' # ascii ''.chakra-menu__menuitem''
          # (ascii ''[role='' @ [0x22] @ ascii ''menuitem'' @ [0x22] @ ascii '']'')
          # ascii ''.chakra-button''
          # (ascii ''a[role='' @ [0x22] @ ascii ''menuitem'' @ [0x22] @ ascii '']'')
          # ascii ''.sidebar-item-text'' # ascii ''nav a'' # ascii ''.form-label''
          # ascii ''.input-label'' # [ascii ''[data-translate]''])" for sel found
    using scanSelector_other[OF ne[OF that]] .
  show ?thesis
    by (simp add: scanPage_def selectors_def o scanSelector_heading)
qed

section \<open>Scanning\<close>

text \<open>
  Claim C9. \<open>scanPage\<close> reads the document and rebuilds the map of elements from nothing:
  a second scan of the same document leaves the service exactly as the first did, with the
  same entries in the same order of discovery (hence the same count and the same original
  texts), whatever the service held before.
\<close>

theorem scan_deterministic:
  "scanPage css d (scanPage css d s) = scanPage css d s
   \<and> elements (scanPage css d s) = elements (scanPage css d s')
   \<and> length (elements (scanPage css d (scanPage css d s))) = length (elements (scanPage css d s))
   \<and> map (\<lambda>entry. originalText (snd entry)) (elements (scanPage css d (scanPage css d s)))
       = map (\<lambda>entry. originalText (snd entry)) (elements (scanPage css d s))"
  by (simp add: scanPage_def)

theorem scan_deterministic_witness:
  "elements (scanPage headingCss headingDocument (scanPage headingCss headingDocument newService))
     = [(ascii ''h1, h2, h3, h4, h5, h6-0-Hi'', scannedHeading)]
   \<and> elements (scanPage headingCss headingDocument newService)
     = [(ascii ''h1, h2, h3, h4, h5, h6-0-Hi'', scannedHeading)]"
  using scan_deterministic[of headingCss headingDocument newService newService]
    scan_heading[of newService]
  by simp

section \<open>Apply and restore\<close>


lemma applied_label:
  "applyTranslation translatedLabel labelDocument =
     [bareElement ''HTML'' [ElementNode 1],
      (bareElement ''LABEL'' [TextNode [0x4F60, 0x597D], ElementNode 2, TextNode (ascii ''World'')])
         \<lparr>data_originalText := Some (ascii ''Hello World''), data_translated := Some (ascii ''true'')\<rparr>,
      bareElement ''BR'' []]"
  by (simp add: applyTranslation_def translatedLabel_def scannedLabel_def labelDocument_def
      bareElement_def setElementText_def truthy_def strOr_def Let_def)

lemma restored_label:
  "fst (restoreAll (applyTranslation translatedLabel labelDocument, labelService)) = restoredLabelDocument"
  unfolding applied_label restoredLabelDocument_def
  by (simp add: restoreAll_unfold labelService_def scannedLabel_def restoreStep_def restoreElement_def
      bareElement_def setElementText_def truthy_def strOr_def ascii_def)

lemma label_texts:
  "getElementText labelDocument (Suc 0) = ascii ''Hello World''"
  "textContent labelDocument (Suc 0) = ascii ''Hello World''"
  "getElementText restoredLabelDocument (Suc 0) = ascii ''Hello WorldWorld''"
  "textContent restoredLabelDocument (Suc 0) = ascii ''Hello WorldWorld''"
  by (simp_all add: getElementText_def textContent_def trim_def isWhiteSpace_def labelDocument_def
      restoredLabelDocument_def bareElement_def ascii_def Let_def)

text \<open>
  Claim C5 fails on the code. The label \<open><label>Hello <br>World</label>\<close> has two direct text
  nodes; the scanner records their concatenation \<open>Hello World\<close> as its original text, which
  is also its \<open>textContent\<close>. Applying a translation rewrites the first text node only, and
  so does restoring: the first node gets the whole original text, the second keeps its
  own, and the restored label reads \<open>Hello WorldWorld\<close>.
\<close>

theorem restore_duplicates_text:
  "getElementText labelDocument 1 = ascii ''Hello World''
   \<and> originalText translatedLabel = getElementText labelDocument 1
   \<and> textContent labelDocument 1 = ascii ''Hello World''
   \<and> textContent (fst (restoreAll (applyTranslation translatedLabel labelDocument, labelService))) 1
       = ascii ''Hello WorldWorld''
   \<and> getElementText (fst (restoreAll (applyTranslation translatedLabel labelDocument, labelService))) 1
       = ascii ''Hello WorldWorld''
   \<and> textContent (fst (restoreAll (applyTranslation translatedLabel labelDocument, labelService))) 1
       \<noteq> originalText translatedLabel"
proof -
  have o: "originalText translatedLabel = ascii ''Hello World''"
    by (simp add: translatedLabel_def scannedLabel_def)
  have n: "ascii ''Hello WorldWorld'' \<noteq> ascii ''Hello World''" by (simp add: ascii_def)
  show ?thesis unfolding restored_label o using label_texts n by simp
qed

text \<open>
  The same happens when the first direct text node is blank and the text comes from a
  child: the heading \<open><h2>LF SP<span>Title</span></h2>\<close> is scanned as \<open>Title\<close> and restored
  to \<open>TitleTitle\<close>, while the scanner still reads \<open>Title\<close> from it.
\<close>

lemma applied_title:
  "applyTranslation translatedTitle titleDocument =
     [bareElement ''HTML'' [ElementNode 1],
      (bareElement ''H2'' [TextNode [0x6807, 0x9898], ElementNode 2])
         \<lparr>data_originalText := Some (ascii ''Title''), data_translated := Some (ascii ''true'')\<rparr>,
      bareElement ''SPAN'' [TextNode (ascii ''Title'')]]"
  by (simp add: applyTranslation_def translatedTitle_def scannedTitle_def titleDocument_def
      bareElement_def setElementText_def truthy_def strOr_def Let_def)

lemma restored_title:
  "fst (restoreAll (applyTranslation translatedTitle titleDocument, titleService)) = restoredTitleDocument"
  unfolding applied_title restoredTitleDocument_def
  by (simp add: restoreAll_unfold titleService_def scannedTitle_def restoreStep_def restoreElement_def
      bareElement_def setElementText_def truthy_def strOr_def ascii_def)

lemma title_texts:
  "getElementText titleDocument (Suc 0) = ascii ''Title''"
  "textContent titleDocument (Suc 0) = [0x0A, 0x20] @ ascii ''Title''"
  "getElementText restoredTitleDocument (Suc 0) = ascii ''Title''"
  "textContent restoredTitleDocument (Suc 0) = ascii ''TitleTitle''"
  by (simp_all add: getElementText_def textContent_def trim_def isWhiteSpace_def titleDocument_def
      restoredTitleDocument_def bareElement_def ascii_def Let_def)

lemma restore_blank_text_node_example:
  "getElementText titleDocument 1 = ascii ''Title''
   \<and> originalText translatedTitle = getElementText titleDocument 1
   \<and> textContent titleDocument 1 = [0x0A, 0x20] @ ascii ''Title''
   \<and> textContent (fst (restoreAll (applyTranslation translatedTitle titleDocument, titleService))) 1
       = ascii ''TitleTitle''
   \<and> getElementText (fst (restoreAll (applyTranslation translatedTitle titleDocument, titleService))) 1
       = ascii ''Title''"
proof -
  have o: "originalText translatedTitle = ascii ''Title''"
    by (simp add: translatedTitle_def scannedTitle_def)
  show ?thesis unfolding restored_title o using title_texts by simp
qed


section \<open>Restoring\<close>



section \<open>The hook on page load\<close>

declare runMountEffect.simps [simp del]
















lemma not_ai_language_no_replay:
  "persistedAILanguage st = None \<or> (\<exists>l. persistedAILanguage st = Some l \<and> \<not> isAILanguage l)
   \<Longrightarrow> runMountEffect baseUrl fetchBatch st = st"
  by (subst runMountEffect.simps) (auto simp: mountEffect_def Let_def)




end
